theory Spec2Isabelle
  imports Complex_Main
begin

section \<open>JavaScript values\<close>

text \<open>
  Numbers of the tile compositor. The bounds loop starts its accumulators at
  \<open>Infinity\<close> and \<open>-Infinity\<close>, so the accumulators range over the extended
  numbers of JavaScript. Finite numbers are modelled as exact reals: rounding of
  IEEE-754 doubles is outside this model.
\<close>

datatype jsnum = NaN | NegInfinity | Num real | Infinity

fun Math_min :: "jsnum \<Rightarrow> jsnum \<Rightarrow> jsnum" where
  "Math_min NaN b = NaN"
| "Math_min a NaN = NaN"
| "Math_min NegInfinity b = NegInfinity"
| "Math_min a NegInfinity = NegInfinity"
| "Math_min Infinity b = b"
| "Math_min a Infinity = a"
| "Math_min (Num a) (Num b) = Num (min a b)"

fun Math_max :: "jsnum \<Rightarrow> jsnum \<Rightarrow> jsnum" where
  "Math_max NaN b = NaN"
| "Math_max a NaN = NaN"
| "Math_max Infinity b = Infinity"
| "Math_max a Infinity = Infinity"
| "Math_max NegInfinity b = b"
| "Math_max a NegInfinity = a"
| "Math_max (Num a) (Num b) = Num (max a b)"

fun js_neg :: "jsnum \<Rightarrow> jsnum" where
  "js_neg NaN = NaN"
| "js_neg NegInfinity = Infinity"
| "js_neg Infinity = NegInfinity"
| "js_neg (Num a) = Num (- a)"

fun js_add :: "jsnum \<Rightarrow> jsnum \<Rightarrow> jsnum" where
  "js_add NaN b = NaN"
| "js_add a NaN = NaN"
| "js_add Infinity NegInfinity = NaN"
| "js_add NegInfinity Infinity = NaN"
| "js_add Infinity b = Infinity"
| "js_add a Infinity = Infinity"
| "js_add NegInfinity b = NegInfinity"
| "js_add a NegInfinity = NegInfinity"
| "js_add (Num a) (Num b) = Num (a + b)"

definition js_sub :: "jsnum \<Rightarrow> jsnum \<Rightarrow> jsnum" where
  "js_sub a b = js_add a (js_neg b)"

text \<open>The comparisons \<open><=\<close> and \<open>>\<close>: false as soon as one side is \<open>NaN\<close>.\<close>

fun js_le :: "jsnum \<Rightarrow> jsnum \<Rightarrow> bool" where
  "js_le NaN b = False"
| "js_le a NaN = False"
| "js_le NegInfinity b = True"
| "js_le a Infinity = True"
| "js_le Infinity b = False"
| "js_le a NegInfinity = False"
| "js_le (Num a) (Num b) = (a \<le> b)"

fun js_gt :: "jsnum \<Rightarrow> jsnum \<Rightarrow> bool" where
  "js_gt NaN b = False"
| "js_gt a NaN = False"
| "js_gt NegInfinity b = False"
| "js_gt a Infinity = False"
| "js_gt Infinity b = True"
| "js_gt a NegInfinity = True"
| "js_gt (Num a) (Num b) = (a > b)"

fun Math_ceil :: "jsnum \<Rightarrow> jsnum" where
  "Math_ceil (Num a) = Num (of_int \<lceil>a\<rceil>)"
| "Math_ceil a = a"

text \<open>
  Parsed JSON, as \<open>JSON.parse\<close> returns it and \<open>toObject()\<close> produces it. An
  object is the list of its own properties in property order.
\<close>

datatype json =
    JNull
  | JBool bool
  | JNum real
  | JStr string
  | JArr "json list"
  | JObj "(string \<times> json) list"

datatype jsError = SyntaxError | TypeError | Error string

section \<open>The host's scene\<close>

text \<open>
  A tile as the compositor reads it: the direct properties \<open>width\<close>, \<open>height\<close>,
  \<open>x\<close>, \<open>y\<close>, \<open>texture?.src\<close> and \<open>img\<close>, and the same properties on the
  nested \<open>document\<close>. \<open>None\<close> is \<open>undefined\<close>.
\<close>

record texture =
  src :: "string option"

record tileProps =
  prop_width :: "real option"
  prop_height :: "real option"
  prop_x :: "real option"
  prop_y :: "real option"
  texture :: "texture option"
  img :: "string option"

record tile = tileProps +
  document :: "tileProps option"

text \<open>
  The scene: its padding, its wall collection (each wall as \<open>wall.toObject()\<close>
  returns it, in collection order), its tiles and its name.
\<close>

record scene =
  padding :: real
  walls :: "json list"
  tiles :: "tile list"
  name :: "string option"

section \<open>Effects\<close>

text \<open>
  What an operation does to its collaborators is recorded as a trace of events, in
  the order the code performs them. A notification keeps the values interpolated
  into its message.
\<close>

datatype notice =
    InvalidWallData
  | NoActiveScene
  | CreatingWalls nat
  | CreatedSoFar nat nat
  | CreatedAll nat
  | ErrorProcessingWalls jsError
  | WallsCopied
  | FailedToCopyWalls
  | NoActiveSceneFound
  | WallsExported
  | FailedToExportWalls
  | NoTilesToExport
  | NoCanvasContext
  | PreparingTiles nat
  | CanvasTooLarge jsnum jsnum
  | LoadingTileImages
  | TilesNotLoaded nat
  | BlobFailed
  | TilesExported nat
  | FailedToExportImage jsError

datatype image = Image string real real

record drawCall =
  source :: image
  sx :: real
  sy :: real
  sWidth :: real
  sHeight :: real
  dx :: jsnum
  dy :: jsnum
  dWidth :: real
  dHeight :: real

datatype event =
    Notify notice
  | PaddingWarning string
  | CreateEmbeddedDocuments string "json list"
  | ClipboardWrite json
  | SaveDataToFile json
  | SetCanvasSize jsnum jsnum
  | ClearRect jsnum jsnum
  | DrawImage drawCall
  | SaveAs

text \<open>
  The user's reaction to the padding dialog. The dialog resolves its promise only
  from its two buttons; a dialog that is closed otherwise leaves it pending.
\<close>

datatype answer = Continue | Cancel | Unanswered

text \<open>
  The host's bulk creation call: from the scene and the submitted records to the
  scene afterwards and, when the call throws, the error.
\<close>

type_synonym createCall = "scene \<Rightarrow> string \<Rightarrow> json list \<Rightarrow> jsError option \<times> scene"

section \<open>Wall import and export\<close>

text \<open>
  \<open>showPaddingWarning(operation)\<close>: the dialog is shown, and the promise resolves to
  \<open>true\<close>, to \<open>false\<close>, or never.
\<close>

definition showPaddingWarning :: "answer \<Rightarrow> string \<Rightarrow> event list \<times> bool option" where
  "showPaddingWarning ans operation =
     ([PaddingWarning operation],
      (case ans of Continue \<Rightarrow> Some True | Cancel \<Rightarrow> Some False | Unanswered \<Rightarrow> None))"

text \<open>Decimal property names of array and string indices.\<close>

fun show_nat :: "nat \<Rightarrow> string" where
  "show_nat n =
     (if n < 10 then [''0123456789'' ! n]
      else show_nat (n div 10) @ [''0123456789'' ! (n mod 10)])"

declare show_nat.simps [simp del]

definition indexed :: "json list \<Rightarrow> (string \<times> json) list" where
  "indexed vs = zip (map show_nat [0 ..< length vs]) vs"

text \<open>
  The own enumerable properties that the destructuring pattern
  \<open>{ _id, ...wallData }\<close> reads from a value; \<open>null\<close> cannot be destructured.
\<close>

fun ownProperties :: "json \<Rightarrow> jsError + (string \<times> json) list" where
  "ownProperties JNull = Inl TypeError"
| "ownProperties (JBool b) = Inr []"
| "ownProperties (JNum r) = Inr []"
| "ownProperties (JStr s) = Inr (indexed (map (\<lambda>c. JStr [c]) s))"
| "ownProperties (JArr vs) = Inr (indexed vs)"
| "ownProperties (JObj kvs) = Inr kvs"

definition withoutId :: "(string \<times> json) list \<Rightarrow> (string \<times> json) list" where
  "withoutId kvs = filter (\<lambda>kv. fst kv \<noteq> ''_id'') kvs"

text \<open>
  The callback of \<open>walls.map\<close>, which the specification calls \<open>stripIdentity\<close>:
  the value without its \<open>_id\<close> property.
\<close>

definition stripIdentity :: "json \<Rightarrow> jsError + json" where
  "stripIdentity wall =
     (case ownProperties wall of
        Inl e \<Rightarrow> Inl e
      | Inr kvs \<Rightarrow> Inr (JObj (withoutId kvs)))"

text \<open>\<open>walls.map(...)\<close>: the first element that throws ends the map.\<close>

fun stripAll :: "json list \<Rightarrow> jsError + json list" where
  "stripAll [] = Inr []"
| "stripAll (w # ws) =
     (case stripIdentity w of
        Inl e \<Rightarrow> Inl e
      | Inr w' \<Rightarrow> (case stripAll ws of Inl e \<Rightarrow> Inl e | Inr ws' \<Rightarrow> Inr (w' # ws')))"

definition BATCH_SIZE :: nat where
  "BATCH_SIZE = 100"

definition slice :: "'a list \<Rightarrow> nat \<Rightarrow> nat \<Rightarrow> 'a list" where
  "slice xs i j = take (j - i) (drop i xs)"

text \<open>
  The state of the batch loop: the scene, the trace so far, \<open>createdCount\<close>, and
  the error a creation call has thrown. The loop runs from index \<open>i\<close> in steps of
  \<open>BATCH_SIZE\<close>; a call that throws ends it.
\<close>

record importState =
  sceneNow :: scene
  trace :: "event list"
  createdCount :: nat
  thrown :: "jsError option"

function createBatches :: "createCall \<Rightarrow> json list \<Rightarrow> nat \<Rightarrow> importState \<Rightarrow> importState" where
  "createBatches create wallData i st =
     (if i < length wallData then
        (let batch = slice wallData i (i + BATCH_SIZE);
             called = trace st @ [CreateEmbeddedDocuments ''Wall'' batch]
         in case create (sceneNow st) ''Wall'' batch of
              (Some e, s') \<Rightarrow> st\<lparr>sceneNow := s', trace := called, thrown := Some e\<rparr>
            | (None, s') \<Rightarrow>
                (let n = createdCount st + length batch;
                     progress =
                       (if i + BATCH_SIZE < length wallData
                        then [Notify (CreatedSoFar n (length wallData))] else [])
                 in createBatches create wallData (i + BATCH_SIZE)
                      (st\<lparr>sceneNow := s', trace := called @ progress, createdCount := n\<rparr>)))
      else st)"
  by pat_completeness auto
termination
  by (relation "measure (\<lambda>(create, wallData, i, st). length wallData - i)")
     (auto simp: BATCH_SIZE_def)

declare createBatches.simps [simp del]

text \<open>
  The result of one import: the trace, the scene afterwards (when there is one),
  the value of \<open>createdCount\<close> when the operation ended, the exception its
  \<open>catch\<close> block received (if any), and whether the operation ended.
\<close>

record importRun =
  events :: "event list"
  sceneAfter :: "scene option"
  created :: nat
  failure :: "jsError option"
  finished :: bool

text \<open>
  \<open>processWallImport\<close>. The arguments are the creation call of the host, the user's
  answer to a padding dialog, \<open>game.scenes?.current\<close> and the result of
  \<open>JSON.parse(text)\<close> (\<open>None\<close> when it throws). Every exception is caught at the
  end of the function and becomes a notification.
\<close>

definition processWallImport ::
    "createCall \<Rightarrow> answer \<Rightarrow> scene option \<Rightarrow> json option \<Rightarrow> importRun" where
  "processWallImport create ans current parsed =
     (case parsed of
        None \<Rightarrow>
          \<lparr>events = [Notify (ErrorProcessingWalls SyntaxError)], sceneAfter = current,
           created = 0, failure = Some SyntaxError, finished = True\<rparr>
      | Some (JArr parsedWalls) \<Rightarrow>
          (case current of
             None \<Rightarrow>
               \<lparr>events = [Notify NoActiveScene], sceneAfter = None, created = 0,
                failure = None, finished = True\<rparr>
           | Some scene \<Rightarrow>
               (let (asked, confirmImport) =
                      (if padding scene \<noteq> 0 then showPaddingWarning ans ''import''
                       else ([], Some True))
                in case confirmImport of
                     None \<Rightarrow>
                       \<lparr>events = asked, sceneAfter = Some scene, created = 0,
                        failure = None, finished = False\<rparr>
                   | Some False \<Rightarrow>
                       \<lparr>events = asked, sceneAfter = Some scene, created = 0,
                        failure = None, finished = True\<rparr>
                   | Some True \<Rightarrow>
                       (case stripAll parsedWalls of
                          Inl e \<Rightarrow>
                            \<lparr>events = asked @ [Notify (ErrorProcessingWalls e)],
                             sceneAfter = Some scene, created = 0, failure = Some e,
                             finished = True\<rparr>
                        | Inr wallData \<Rightarrow>
                            (let st = createBatches create wallData 0
                                        \<lparr>sceneNow = scene,
                                         trace = asked @ [Notify (CreatingWalls (length wallData))],
                                         createdCount = 0, thrown = None\<rparr>
                             in \<lparr>events = trace st @
                                   [Notify (case thrown st of
                                              None \<Rightarrow> CreatedAll (createdCount st)
                                            | Some e \<Rightarrow> ErrorProcessingWalls e)],
                                 sceneAfter = Some (sceneNow st),
                                 created = createdCount st, failure = thrown st,
                                 finished = True\<rparr>))))
      | Some other \<Rightarrow>
          \<lparr>events = [Notify InvalidWallData], sceneAfter = current, created = 0,
           failure = None, finished = True\<rparr>)"

text \<open>How an awaited call ends: it returns, it throws, or it never settles.\<close>

datatype 'a completion = Returned 'a | Threw jsError | Pending

text \<open>
  \<open>getWallsJson\<close>. The value returned is the array handed to \<open>JSON.stringify\<close>;
  the text that \<open>JSON.stringify\<close> makes of it is not modelled.
\<close>

definition getWallsJson :: "answer \<Rightarrow> scene option \<Rightarrow> event list \<times> json completion" where
  "getWallsJson ans current =
     (case current of
        None \<Rightarrow> ([], Threw (Error ''No active scene found.''))
      | Some scene \<Rightarrow>
          (let (asked, confirmExport) =
                 (if padding scene \<noteq> 0 then showPaddingWarning ans ''export''
                  else ([], Some True))
           in case confirmExport of
                None \<Rightarrow> (asked, Pending)
              | Some False \<Rightarrow> (asked, Threw (Error ''Wall export cancelled.''))
              | Some True \<Rightarrow> (asked, Returned (JArr (walls scene)))))"

text \<open>
  \<open>exportWallsToClipboard\<close>; \<open>clipboardDenied\<close> says whether
  \<open>navigator.clipboard.writeText\<close> throws.
\<close>

definition exportWallsToClipboard :: "bool \<Rightarrow> answer \<Rightarrow> scene option \<Rightarrow> event list" where
  "exportWallsToClipboard clipboardDenied ans current =
     (case getWallsJson ans current of
        (evs, Returned js) \<Rightarrow>
          (if clipboardDenied then evs @ [Notify FailedToCopyWalls]
           else evs @ [ClipboardWrite js, Notify WallsCopied])
      | (evs, Threw e) \<Rightarrow> evs @ [Notify FailedToCopyWalls]
      | (evs, Pending) \<Rightarrow> evs)"

text \<open>
  \<open>exportWallsToFile\<close>. The file name, made from the scene's name, is not part of
  the event.
\<close>

definition exportWallsToFile :: "answer \<Rightarrow> scene option \<Rightarrow> event list" where
  "exportWallsToFile ans current =
     (case current of
        None \<Rightarrow> [Notify NoActiveSceneFound]
      | Some scene \<Rightarrow>
          (if name scene = None \<or> name scene = Some [] then [Notify NoActiveSceneFound]
           else
             (case getWallsJson ans current of
                (evs, Returned js) \<Rightarrow> evs @ [SaveDataToFile js, Notify WallsExported]
              | (evs, Threw e) \<Rightarrow> evs @ [Notify FailedToExportWalls]
              | (evs, Pending) \<Rightarrow> evs)))"

section \<open>Tile export\<close>

text \<open>\<open>a || b\<close> on numbers that may be undefined: \<open>undefined\<close> and \<open>0\<close> are falsy.\<close>

definition truthyNum :: "real option \<Rightarrow> bool" where
  "truthyNum v = (case v of None \<Rightarrow> False | Some r \<Rightarrow> r \<noteq> 0)"

definition js_or :: "real option \<Rightarrow> real option \<Rightarrow> real option" where
  "js_or a b = (if truthyNum a then a else b)"

text \<open>\<open>v || 0\<close>.\<close>

definition orZero :: "real option \<Rightarrow> real" where
  "orZero v = (case js_or v (Some 0) of None \<Rightarrow> 0 | Some r \<Rightarrow> r)"

text \<open>\<open>tileData.document?.p\<close>.\<close>

definition docProp :: "(tileProps \<Rightarrow> 'a option) \<Rightarrow> tile \<Rightarrow> 'a option" where
  "docProp p t = (case document t of None \<Rightarrow> None | Some d \<Rightarrow> p d)"

text \<open>The four fallback chains, written the same way in both passes over the tiles.\<close>

definition tileWidth :: "tile \<Rightarrow> real" where
  "tileWidth t = orZero (js_or (prop_width t) (docProp prop_width t))"

definition tileHeight :: "tile \<Rightarrow> real" where
  "tileHeight t = orZero (js_or (prop_height t) (docProp prop_height t))"

definition tileX :: "tile \<Rightarrow> real" where
  "tileX t = orZero (js_or (prop_x t) (docProp prop_x t))"

definition tileY :: "tile \<Rightarrow> real" where
  "tileY t = orZero (js_or (prop_y t) (docProp prop_y t))"

record bounds =
  minX :: jsnum
  minY :: jsnum
  maxX :: jsnum
  maxY :: jsnum

definition initialBounds :: bounds where
  "initialBounds = \<lparr>minX = Infinity, minY = Infinity, maxX = NegInfinity, maxY = NegInfinity\<rparr>"

text \<open>The body of the first pass, and the pass.\<close>

definition extendBounds :: "bounds \<Rightarrow> tile \<Rightarrow> bounds" where
  "extendBounds b t =
     \<lparr>minX = Math_min (minX b) (Num (tileX t)),
      minY = Math_min (minY b) (Num (tileY t)),
      maxX = Math_max (maxX b) (Num (tileX t + tileWidth t)),
      maxY = Math_max (maxY b) (Num (tileY t + tileHeight t))\<rparr>"

definition scanBounds :: "tile list \<Rightarrow> bounds" where
  "scanBounds ts = foldl extendBounds initialBounds ts"

text \<open>\<open>if (maxX <= minX) maxX = minX + 1; if (maxY <= minY) maxY = minY + 1;\<close>\<close>

definition ensureExtent :: "bounds \<Rightarrow> bounds" where
  "ensureExtent b =
     b\<lparr>maxX := (if js_le (maxX b) (minX b) then js_add (minX b) (Num 1) else maxX b),
       maxY := (if js_le (maxY b) (minY b) then js_add (minY b) (Num 1) else maxY b)\<rparr>"

text \<open>
  The bounds the export works with, which the specification calls
  \<open>computeBounds\<close>: the first pass, then the minimum extent.
\<close>

definition computeBounds :: "tile list \<Rightarrow> bounds" where
  "computeBounds ts = ensureExtent (scanBounds ts)"

definition canvasWidth :: "bounds \<Rightarrow> jsnum" where
  "canvasWidth b = Math_ceil (js_sub (maxX b) (minX b))"

definition canvasHeight :: "bounds \<Rightarrow> jsnum" where
  "canvasHeight b = Math_ceil (js_sub (maxY b) (minY b))"

definition MAX_DIMENSION :: jsnum where
  "MAX_DIMENSION = Num 16384"

text \<open>A string that may be undefined is truthy when it is there and not empty.\<close>

definition truthyStr :: "string option \<Rightarrow> bool" where
  "truthyStr v = (case v of None \<Rightarrow> False | Some s \<Rightarrow> s \<noteq> [])"

text \<open>\<open>p.texture?.src\<close>.\<close>

definition textureOf :: "'a tileProps_scheme \<Rightarrow> string option" where
  "textureOf p = (case texture p of None \<Rightarrow> None | Some tx \<Rightarrow> src tx)"

text \<open>The \<open>if\<close> chain that finds the texture path; \<open>None\<close> is \<open>null\<close>.\<close>

definition textureSrc :: "tile \<Rightarrow> string option" where
  "textureSrc t =
     (if truthyStr (textureOf t) then textureOf t
      else if truthyStr (docProp textureOf t) then docProp textureOf t
      else if truthyStr (img t) then img t
      else if truthyStr (docProp img t) then docProp img t
      else None)"

text \<open>
  The collaborators of the export: whether the canvas gives a 2d context; what
  loading an image source yields (\<open>None\<close> when \<open>onerror\<close> fires; every load
  is taken to end in \<open>onload\<close> or \<open>onerror\<close>); whether a \<open>drawImage\<close> call
  throws; whether \<open>toBlob\<close> yields a blob (\<open>Inr True\<close>), yields \<open>null\<close>
  (\<open>Inr False\<close>) or throws; and the error thrown while the file is saved, if any.
\<close>

record canvasEnv =
  getContext :: bool
  loadImage :: "string \<Rightarrow> image option"
  drawImageThrows :: "drawCall \<Rightarrow> bool"
  toBlob :: "jsError + bool"
  saveThrows :: "jsError option"

record drawState =
  drawn :: "event list"
  loadedCount :: nat
  failedCount :: nat

definition imageWidth :: "image \<Rightarrow> real" where
  "imageWidth i = (case i of Image s w h \<Rightarrow> w)"

definition imageHeight :: "image \<Rightarrow> real" where
  "imageHeight i = (case i of Image s w h \<Rightarrow> h)"

text \<open>The \<open>drawImage\<close> call of \<open>img.onload\<close>.\<close>

definition drawCallOf :: "bounds \<Rightarrow> tile \<Rightarrow> image \<Rightarrow> drawCall" where
  "drawCallOf b t i =
     \<lparr>source = i, sx = 0, sy = 0, sWidth = imageWidth i, sHeight = imageHeight i,
      dx = js_sub (Num (tileX t)) (minX b), dy = js_sub (Num (tileY t)) (minY b),
      dWidth = tileWidth t, dHeight = tileHeight t\<rparr>"

text \<open>The body of the second pass for one tile.\<close>

definition drawTile :: "canvasEnv \<Rightarrow> bounds \<Rightarrow> drawState \<Rightarrow> tile \<Rightarrow> drawState" where
  "drawTile env b st t =
     (case textureSrc t of
        None \<Rightarrow> st\<lparr>failedCount := failedCount st + 1\<rparr>
      | Some s \<Rightarrow>
          (case loadImage env s of
             None \<Rightarrow> st\<lparr>failedCount := failedCount st + 1\<rparr>
           | Some i \<Rightarrow>
               (if drawImageThrows env (drawCallOf b t i)
                then st\<lparr>failedCount := failedCount st + 1\<rparr>
                else st\<lparr>drawn := drawn st @ [DrawImage (drawCallOf b t i)],
                        loadedCount := loadedCount st + 1\<rparr>)))"

text \<open>\<open>let loadedCount = 0; let failedCount = 0;\<close> and an untouched canvas.\<close>

definition initialDrawState :: drawState where
  "initialDrawState = \<lparr>drawn = [], loadedCount = 0, failedCount = 0\<rparr>"

fun drawTiles :: "canvasEnv \<Rightarrow> bounds \<Rightarrow> drawState \<Rightarrow> tile list \<Rightarrow> drawState" where
  "drawTiles env b st [] = st"
| "drawTiles env b st (t # ts) = drawTiles env b (drawTile env b st t) ts"

text \<open>What follows the second pass: the warning, the blob, the download.\<close>

definition finishExport :: "canvasEnv \<Rightarrow> drawState \<Rightarrow> event list" where
  "finishExport env st =
     (if failedCount st > 0 then [Notify (TilesNotLoaded (failedCount st))] else []) @
     (case toBlob env of
        Inl e \<Rightarrow> [Notify (FailedToExportImage e)]
      | Inr False \<Rightarrow> [Notify BlobFailed]
      | Inr True \<Rightarrow>
          (case saveThrows env of
             Some e \<Rightarrow> [Notify (FailedToExportImage e)]
           | None \<Rightarrow> [SaveAs, Notify (TilesExported (loadedCount st))]))"

definition exportSceneTilesAsImage :: "canvasEnv \<Rightarrow> scene option \<Rightarrow> event list" where
  "exportSceneTilesAsImage env current =
     (case current of
        None \<Rightarrow> [Notify NoActiveSceneFound]
      | Some scene \<Rightarrow>
          (if tiles scene = [] then [Notify NoTilesToExport]
           else if \<not> getContext env then [Notify NoCanvasContext]
           else
             (let b = computeBounds (tiles scene);
                  w = canvasWidth b;
                  h = canvasHeight b
              in Notify (PreparingTiles (length (tiles scene))) #
                 (if js_gt w MAX_DIMENSION \<or> js_gt h MAX_DIMENSION
                  then [Notify (CanvasTooLarge w h)]
                  else
                    (let st = drawTiles env b initialDrawState (tiles scene)
                     in [SetCanvasSize w h, ClearRect w h, Notify LoadingTileImages] @
                        drawn st @ finishExport env st)))))"

section \<open>Reading a trace\<close>

text \<open>The batches passed to the host's creation call, in the order of the calls.\<close>

definition createCalls :: "event list \<Rightarrow> json list list" where
  "createCalls evs =
     concat (map (\<lambda>ev. case ev of CreateEmbeddedDocuments c b \<Rightarrow> [b] | _ \<Rightarrow> []) evs)"

text \<open>The padding dialogs shown, by operation.\<close>

definition paddingWarnings :: "event list \<Rightarrow> string list" where
  "paddingWarnings evs =
     concat (map (\<lambda>ev. case ev of PaddingWarning operation \<Rightarrow> [operation] | _ \<Rightarrow> []) evs)"

text \<open>What left the application: clipboard writes and saved files.\<close>

definition exported :: "event list \<Rightarrow> json list" where
  "exported evs =
     concat (map (\<lambda>ev. case ev of ClipboardWrite js \<Rightarrow> [js] | SaveDataToFile js \<Rightarrow> [js]
                        | _ \<Rightarrow> []) evs)"

text \<open>
  Calls issued one after the other: each call meets the scene the call before it
  left. \<open>sceneBefore create s bs j\<close> is the scene when call number \<open>j\<close> (from 0) of
  the batches \<open>bs\<close> is issued, \<open>callThrows create s bs j\<close> what that call throws.
\<close>

definition hostStep :: "createCall \<Rightarrow> scene \<Rightarrow> json list \<Rightarrow> scene" where
  "hostStep create s b = snd (create s ''Wall'' b)"

definition sceneBefore :: "createCall \<Rightarrow> scene \<Rightarrow> json list list \<Rightarrow> nat \<Rightarrow> scene" where
  "sceneBefore create s bs j = foldl (hostStep create) s (take j bs)"

definition callThrows ::
    "createCall \<Rightarrow> scene \<Rightarrow> json list list \<Rightarrow> nat \<Rightarrow> jsError option" where
  "callThrows create s bs j = fst (create (sceneBefore create s bs j) ''Wall'' (bs ! j))"

section \<open>The specification's notions\<close>

text \<open>
  The tightest axis-aligned rectangle covering the extents of a non-empty tile set,
  in the words of the specification: the minima over all \<open>(x, y)\<close> and the maxima
  over all \<open>(x + width, y + height)\<close>.
\<close>

definition spec_tightestBounds :: "tile list \<Rightarrow> bounds" where
  "spec_tightestBounds ts =
     \<lparr>minX = Num (Min (tileX ` set ts)),
      minY = Num (Min (tileY ` set ts)),
      maxX = Num (Max ((\<lambda>t. tileX t + tileWidth t) ` set ts)),
      maxY = Num (Max ((\<lambda>t. tileY t + tileHeight t) ` set ts))\<rparr>"

text \<open>
  Image source resolution in the words of the specification: an ordered list of
  locations, the first non-empty one wins.
\<close>

definition spec_firstNonEmpty :: "string option list \<Rightarrow> string option" where
  "spec_firstNonEmpty vs = (case find truthyStr vs of None \<Rightarrow> None | Some v \<Rightarrow> v)"

definition spec_resolveImageSource :: "tile \<Rightarrow> string option" where
  "spec_resolveImageSource t =
     spec_firstNonEmpty [textureOf t, docProp textureOf t, img t, docProp img t]"

text \<open>
  The partition of a bundle into fixed-size batches, in the words of the
  specification: \<open>ceil(N / 100)\<close> batches, batch \<open>j\<close> holding the records from
  \<open>100 j\<close> on, at most 100 of them.
\<close>

definition spec_batches :: "'a list \<Rightarrow> 'a list list" where
  "spec_batches xs =
     map (\<lambda>j. take BATCH_SIZE (drop (j * BATCH_SIZE) xs))
       [0 ..< (length xs + (BATCH_SIZE - 1)) div BATCH_SIZE]"

text \<open>A record without its identity field; other values are left as they are.\<close>

fun sansId :: "json \<Rightarrow> json" where
  "sansId (JObj kvs) = JObj (withoutId kvs)"
| "sansId v = v"


section \<open>Example values\<close>

definition plainTile :: "real \<Rightarrow> real \<Rightarrow> real \<Rightarrow> real \<Rightarrow> string \<Rightarrow> tile" where
  "plainTile px py w h s =
     \<lparr>prop_width = Some w, prop_height = Some h, prop_x = Some px, prop_y = Some py,
      texture = Some \<lparr>src = Some s\<rparr>, img = None, document = None\<rparr>"

definition nestedTile :: tile where
  "nestedTile =
     \<lparr>prop_width = Some 2, prop_height = Some 2, prop_x = Some 0, prop_y = Some 0,
      texture = Some \<lparr>src = Some ''direct.png''\<rparr>, img = None,
      document = Some \<lparr>prop_width = None, prop_height = None, prop_x = Some 5,
                        prop_y = None, texture = Some \<lparr>src = Some ''nested.png''\<rparr>,
                        img = None\<rparr>\<rparr>"

definition bareTile :: tile where
  "bareTile =
     \<lparr>prop_width = Some 4, prop_height = Some 4, prop_x = Some 1, prop_y = Some 1,
      texture = None, img = Some [], document = None\<rparr>"

definition goodEnv :: canvasEnv where
  "goodEnv =
     \<lparr>getContext = True, loadImage = (\<lambda>s. Some (Image s 64 64)),
      drawImageThrows = (\<lambda>c. False), toBlob = Inr True, saveThrows = None\<rparr>"

definition sceneWith :: "real \<Rightarrow> json list \<Rightarrow> tile list \<Rightarrow> scene" where
  "sceneWith p ws ts = \<lparr>padding = p, walls = ws, tiles = ts, name = Some ''Map''\<rparr>"

text \<open>A host that gives every created wall an identity of its own.\<close>

definition withId :: "nat \<Rightarrow> json \<Rightarrow> json" where
  "withId n w =
     (case w of
        JObj kvs \<Rightarrow> JObj ((''_id'', JStr (''wall'' @ show_nat n)) # withoutId kvs)
      | v \<Rightarrow> v)"

fun assignIds :: "nat \<Rightarrow> json list \<Rightarrow> json list" where
  "assignIds n [] = []"
| "assignIds n (w # ws) = withId n w # assignIds (Suc n) ws"

definition assigningHost :: createCall where
  "assigningHost s c b = (None, s\<lparr>walls := walls s @ assignIds (length (walls s)) b\<rparr>)"

text \<open>A host that refuses a call that would take the scene beyond \<open>cap\<close> walls.\<close>

definition limitedHost :: "nat \<Rightarrow> createCall" where
  "limitedHost cap s c b =
     (if cap < length (walls s) + length b then (Some (Error ''too many walls''), s)
      else assigningHost s c b)"

definition wallRecord :: "(string \<times> json) list" where
  "wallRecord =
     [(''_id'', JStr ''abc''), (''c'', JArr [JNum 0, JNum 0, JNum 100, JNum 50]),
      (''door'', JNum 0)]"

section \<open>Lemmas about batches\<close>

lemma batch_count_step:
  assumes "0 < n"
  shows "(n + (BATCH_SIZE - 1)) div BATCH_SIZE = Suc ((n - BATCH_SIZE + (BATCH_SIZE - 1)) div BATCH_SIZE)"
proof (cases "100 \<le> n")
  case True
  then have e: "n + 99 = (n - 100 + 99) + 100" by simp
  have "(n - 100 + 99 + 100) div 100 = Suc ((n - 100 + 99) div 100)" by simp
  then have "(n + 99) div 100 = Suc ((n - 100 + 99) div 100)"
    by (simp only: e)
  then show ?thesis by (simp add: BATCH_SIZE_def)
next
  case False
  with assms have "(n + 99) div 100 = 1" by (intro div_nat_eqI) simp_all
  with False show ?thesis by (simp add: BATCH_SIZE_def)
qed

lemma spec_batches_Nil: "spec_batches [] = []"
  by (simp add: spec_batches_def BATCH_SIZE_def)

lemma spec_batches_rec:
  assumes "xs \<noteq> []"
  shows "spec_batches xs = take BATCH_SIZE xs # spec_batches (drop BATCH_SIZE xs)"
proof -
  have "0 < length xs" using assms by simp
  from batch_count_step[OF this] show ?thesis
    by (simp add: spec_batches_def map_upt_Suc add.commute del: upt_Suc)
qed

lemma spec_batches_concat: "concat (spec_batches xs) = xs"
proof (induction "length xs" arbitrary: xs rule: less_induct)
  case less
  show ?case
  proof (cases "xs = []")
    case True
    then show ?thesis by (simp add: spec_batches_Nil)
  next
    case False
    then have "length (drop BATCH_SIZE xs) < length xs" by (simp add: BATCH_SIZE_def)
    from less[OF this] show ?thesis by (simp add: spec_batches_rec[OF False])
  qed
qed

lemma spec_batches_size: "b \<in> set (spec_batches xs) \<Longrightarrow> length b \<le> 100"
  by (auto simp: spec_batches_def BATCH_SIZE_def)

lemma spec_batches_length: "length (spec_batches xs) = (length xs + 99) div 100"
  by (simp add: spec_batches_def BATCH_SIZE_def)

lemma spec_batches_drop:
  "i < length wd \<Longrightarrow>
   spec_batches (drop i wd) =
     take BATCH_SIZE (drop i wd) # spec_batches (drop (i + BATCH_SIZE) wd)"
  by (subst spec_batches_rec) (simp_all add: add.commute)

lemma spec_batches_empty_iff: "(spec_batches xs = []) = (xs = [])"
  by (cases "xs = []") (simp_all add: spec_batches_Nil spec_batches_rec)

section \<open>Lemmas about the batch loop\<close>

lemma createCalls_append: "createCalls (xs @ ys) = createCalls xs @ createCalls ys"
  by (simp add: createCalls_def)

lemma paddingWarnings_append:
  "paddingWarnings (xs @ ys) = paddingWarnings xs @ paddingWarnings ys"
  by (simp add: paddingWarnings_def)

lemma sceneBefore_simps:
  "sceneBefore create s bs 0 = s"
  "sceneBefore create s (b # bs) (Suc j) = sceneBefore create (hostStep create s b) bs j"
  by (simp_all add: sceneBefore_def)

lemma callThrows_simps:
  "callThrows create s (b # bs) 0 = fst (create s ''Wall'' b)"
  "callThrows create s (b # bs) (Suc j) = callThrows create (hostStep create s b) bs j"
  by (simp_all add: callThrows_def sceneBefore_simps)

text \<open>One turn of the loop.\<close>

lemma createBatches_done:
  "\<not> i < length wd \<Longrightarrow> createBatches create wd i st = st"
  by (simp add: createBatches.simps)

lemma createBatches_throw:
  "i < length wd \<Longrightarrow> create (sceneNow st) ''Wall'' (take BATCH_SIZE (drop i wd)) = (Some e, s') \<Longrightarrow>
   createBatches create wd i st =
     st\<lparr>sceneNow := s',
        trace := trace st @ [CreateEmbeddedDocuments ''Wall'' (take BATCH_SIZE (drop i wd))],
        thrown := Some e\<rparr>"
  by (simp add: createBatches.simps[of create wd i st] slice_def)

lemma createBatches_next:
  "i < length wd \<Longrightarrow> create (sceneNow st) ''Wall'' (take BATCH_SIZE (drop i wd)) = (None, s') \<Longrightarrow>
   createBatches create wd i st =
     createBatches create wd (i + BATCH_SIZE)
       (st\<lparr>sceneNow := s',
           trace := trace st @ [CreateEmbeddedDocuments ''Wall'' (take BATCH_SIZE (drop i wd))] @
                    (if i + BATCH_SIZE < length wd
                     then [Notify (CreatedSoFar (createdCount st + length (take BATCH_SIZE (drop i wd)))
                             (length wd))]
                     else []),
           createdCount := createdCount st + length (take BATCH_SIZE (drop i wd))\<rparr>)"
  by (simp add: createBatches.simps[of create wd i st] slice_def Let_def)

text \<open>
  The loop issues a prefix of the batches, one call after the other, and stops at
  the first call that throws.
\<close>

lemma createBatches_run:
  assumes "thrown st = None"
  shows "\<exists>K. K \<le> length (spec_batches (drop i wd)) \<and>
     createCalls (trace (createBatches create wd i st)) =
       createCalls (trace st) @ take K (spec_batches (drop i wd)) \<and>
     paddingWarnings (trace (createBatches create wd i st)) = paddingWarnings (trace st) \<and>
     sceneNow (createBatches create wd i st) =
       sceneBefore create (sceneNow st) (spec_batches (drop i wd)) K \<and>
     (case thrown (createBatches create wd i st) of
        None \<Rightarrow>
          K = length (spec_batches (drop i wd)) \<and>
          (\<forall>j<K. callThrows create (sceneNow st) (spec_batches (drop i wd)) j = None) \<and>
          createdCount (createBatches create wd i st) = createdCount st + (length wd - i)
      | Some e \<Rightarrow>
          1 \<le> K \<and>
          (\<forall>j<K - 1. callThrows create (sceneNow st) (spec_batches (drop i wd)) j = None) \<and>
          callThrows create (sceneNow st) (spec_batches (drop i wd)) (K - 1) = Some e \<and>
          createdCount (createBatches create wd i st) = createdCount st + (K - 1) * BATCH_SIZE)"
  using assms
proof (induction "length wd - i" arbitrary: i st rule: less_induct)
  case less
  show ?case
  proof (cases "i < length wd")
    case False
    then show ?thesis
      using less.prems
      by (intro exI[of _ 0]) (simp add: createBatches_done spec_batches_Nil sceneBefore_simps)
  next
    case True
    define b where "b = take BATCH_SIZE (drop i wd)"
    define R2 where "R2 = spec_batches (drop (i + BATCH_SIZE) wd)"
    have R: "spec_batches (drop i wd) = b # R2"
      using True by (simp add: spec_batches_drop b_def R2_def)
    obtain r s' where cr: "create (sceneNow st) ''Wall'' b = (r, s')"
      by (cases "create (sceneNow st) ''Wall'' b")
    have hs: "hostStep create (sceneNow st) b = s'"
      by (simp add: hostStep_def cr)
    show ?thesis
    proof (cases r)
      case (Some e)
      have run: "createBatches create wd i st =
                   st\<lparr>sceneNow := s', trace := trace st @ [CreateEmbeddedDocuments ''Wall'' b],
                      thrown := Some e\<rparr>"
        using createBatches_throw[OF True, of create st e s'] cr Some by (simp add: b_def)
      show ?thesis
        unfolding R run
        by (intro exI[of _ 1])
           (simp add: createCalls_def paddingWarnings_def sceneBefore_def callThrows_def hs cr Some)
    next
      case None
      define st2 where "st2 =
        st\<lparr>sceneNow := s',
           trace := trace st @ [CreateEmbeddedDocuments ''Wall'' b] @
                    (if i + BATCH_SIZE < length wd
                     then [Notify (CreatedSoFar (createdCount st + length b) (length wd))]
                     else []),
           createdCount := createdCount st + length b\<rparr>"
      have run: "createBatches create wd i st = createBatches create wd (i + BATCH_SIZE) st2"
        using createBatches_next[OF True, of create st s'] cr None by (simp add: b_def st2_def)
      have st2: "thrown st2 = None" "sceneNow st2 = s'"
        "createCalls (trace st2) = createCalls (trace st) @ [b]"
        "paddingWarnings (trace st2) = paddingWarnings (trace st)"
        "createdCount st2 = createdCount st + length b"
        using less.prems by (simp_all add: st2_def createCalls_def paddingWarnings_def)
      have "length wd - (i + BATCH_SIZE) < length wd - i"
        using True by (simp add: BATCH_SIZE_def)
      from less.hyps[OF this st2(1)] obtain K where
        K: "K \<le> length R2"
        and calls: "createCalls (trace (createBatches create wd (i + BATCH_SIZE) st2)) =
                 createCalls (trace st2) @ take K R2"
        and warn: "paddingWarnings (trace (createBatches create wd (i + BATCH_SIZE) st2)) =
                 paddingWarnings (trace st2)"
        and sc: "sceneNow (createBatches create wd (i + BATCH_SIZE) st2) =
                 sceneBefore create (sceneNow st2) R2 K"
        and rest: "(case thrown (createBatches create wd (i + BATCH_SIZE) st2) of
            None \<Rightarrow>
              K = length R2 \<and>
              (\<forall>j<K. callThrows create (sceneNow st2) R2 j = None) \<and>
              createdCount (createBatches create wd (i + BATCH_SIZE) st2) =
                createdCount st2 + (length wd - (i + BATCH_SIZE))
          | Some e \<Rightarrow>
              1 \<le> K \<and>
              (\<forall>j<K - 1. callThrows create (sceneNow st2) R2 j = None) \<and>
              callThrows create (sceneNow st2) R2 (K - 1) = Some e \<and>
              createdCount (createBatches create wd (i + BATCH_SIZE) st2) =
                createdCount st2 + (K - 1) * BATCH_SIZE)"
        unfolding R2_def by blast
      have first: "callThrows create (sceneNow st) (b # R2) 0 = None"
        by (simp add: callThrows_simps cr None)
      have shift: "callThrows create (sceneNow st) (b # R2) (Suc j) = callThrows create s' R2 j" for j
        by (simp add: callThrows_simps hs)
      have all: "(\<forall>j<Suc n. callThrows create (sceneNow st) (b # R2) j = None)"
        if "\<forall>j<n. callThrows create s' R2 j = None" for n
      proof (intro allI impI)
        fix j assume "j < Suc n"
        then show "callThrows create (sceneNow st) (b # R2) j = None"
          using that first shift by (cases j) simp_all
      qed
      have lb: "length b = min BATCH_SIZE (length wd - i)"
        by (simp add: b_def min.commute)
      show ?thesis
      proof (cases "thrown (createBatches create wd (i + BATCH_SIZE) st2)")
        case None
        with rest have r: "K = length R2" "\<forall>j<K. callThrows create s' R2 j = None"
          "createdCount (createBatches create wd (i + BATCH_SIZE) st2) =
             createdCount st2 + (length wd - (i + BATCH_SIZE))"
          by (simp_all add: st2)
        have cnt: "createdCount st2 + (length wd - (i + BATCH_SIZE)) = createdCount st + (length wd - i)"
          using True by (simp add: st2 lb)
        show ?thesis
          unfolding R run
          using None r all[OF r(2)] calls warn sc cnt
          by (intro exI[of _ "Suc K"]) (simp add: st2 sceneBefore_simps hs)
      next
        case (Some e)
        with rest have r: "1 \<le> K" "\<forall>j<K - 1. callThrows create s' R2 j = None"
          "callThrows create s' R2 (K - 1) = Some e"
          "createdCount (createBatches create wd (i + BATCH_SIZE) st2) =
             createdCount st2 + (K - 1) * BATCH_SIZE"
          by (simp_all add: st2)
        from r(1) K have "R2 \<noteq> []" by auto
        then have "drop (i + BATCH_SIZE) wd \<noteq> []"
          by (simp add: R2_def spec_batches_empty_iff)
        then have full: "length b = BATCH_SIZE"
          by (simp add: lb)
        obtain K1 where K1: "K = Suc K1" using r(1) by (cases K) simp_all
        have cnt: "createdCount st2 + (K - 1) * BATCH_SIZE = createdCount st + K * BATCH_SIZE"
          by (simp add: st2 full K1)
        have allK: "\<forall>j<K. callThrows create (sceneNow st) (b # R2) j = None"
          using all[of K1] r(2) by (simp add: K1)
        have last: "callThrows create (sceneNow st) (b # R2) K = Some e"
          using r(3) shift[of K1] by (simp add: K1)
        show ?thesis
          unfolding R run
          using Some r(4) allK last K calls warn sc cnt
          by (intro exI[of _ "Suc K"]) (simp add: st2 sceneBefore_simps hs)
      qed
    qed
  qed
qed

lemma createBatches_prefix:
  "\<exists>rest. trace (createBatches create wd i st) = trace st @ rest"
proof (induction "length wd - i" arbitrary: i st rule: less_induct)
  case less
  show ?case
  proof (cases "i < length wd")
    case False
    then show ?thesis by (simp add: createBatches_done)
  next
    case True
    obtain r s' where cr: "create (sceneNow st) ''Wall'' (take BATCH_SIZE (drop i wd)) = (r, s')"
      by (cases "create (sceneNow st) ''Wall'' (take BATCH_SIZE (drop i wd))")
    show ?thesis
    proof (cases r)
      case (Some e)
      with createBatches_throw[OF True, of create st e s'] cr show ?thesis by simp
    next
      case None
      define st2 where "st2 =
        st\<lparr>sceneNow := s',
           trace := trace st @ [CreateEmbeddedDocuments ''Wall'' (take BATCH_SIZE (drop i wd))] @
                    (if i + BATCH_SIZE < length wd
                     then [Notify (CreatedSoFar (createdCount st + length (take BATCH_SIZE (drop i wd)))
                             (length wd))]
                     else []),
           createdCount := createdCount st + length (take BATCH_SIZE (drop i wd))\<rparr>"
      have run: "createBatches create wd i st = createBatches create wd (i + BATCH_SIZE) st2"
        using createBatches_next[OF True, of create st s'] cr None by (simp only: st2_def)
      have "length wd - (i + BATCH_SIZE) < length wd - i"
        using True by (simp add: BATCH_SIZE_def)
      from less.hyps[OF this, of st2] obtain rest where
        "trace (createBatches create wd (i + BATCH_SIZE) st2) = trace st2 @ rest"
        by blast
      then have "trace (createBatches create wd i st) =
          trace st @ ([CreateEmbeddedDocuments ''Wall'' (take BATCH_SIZE (drop i wd))] @
                    (if i + BATCH_SIZE < length wd
                     then [Notify (CreatedSoFar (createdCount st + length (take BATCH_SIZE (drop i wd)))
                             (length wd))]
                     else []) @ rest)"
        by (simp add: run st2_def)
      then show ?thesis by blast
    qed
  qed
qed

lemma stripAll_objects: "stripAll (map JObj recs) = Inr (map (\<lambda>r. JObj (withoutId r)) recs)"
  by (induction recs) (simp_all add: stripIdentity_def)

lemma stripAll_length: "stripAll ws = Inr wd \<Longrightarrow> length wd = length ws"
  by (induction ws arbitrary: wd) (auto split: sum.splits)

lemma processWallImport_loop:
  assumes "stripAll ws = Inr wd" and "padding scene = 0 \<or> ans = Continue"
  shows "processWallImport create ans (Some scene) (Some (JArr ws)) =
     (let st = createBatches create wd 0
                 \<lparr>sceneNow = scene,
                  trace = (if padding scene \<noteq> 0 then [PaddingWarning ''import''] else []) @
                          [Notify (CreatingWalls (length wd))],
                  createdCount = 0, thrown = None\<rparr>
      in \<lparr>events = trace st @
            [Notify (case thrown st of None \<Rightarrow> CreatedAll (createdCount st)
                     | Some e \<Rightarrow> ErrorProcessingWalls e)],
          sceneAfter = Some (sceneNow st), created = createdCount st, failure = thrown st,
          finished = True\<rparr>)"
proof (cases "padding scene = 0")
  case True
  then show ?thesis
    by (simp add: processWallImport_def assms(1))
next
  case False
  with assms(2) have "ans = Continue" by simp
  with False show ?thesis
    by (simp add: processWallImport_def showPaddingWarning_def assms(1))
qed

lemma import_outcome:
  assumes strip: "stripAll ws = Inr wd" and pad: "padding scene = 0 \<or> ans = Continue"
    and run: "run = processWallImport create ans (Some scene) (Some (JArr ws))"
  shows "\<exists>K. K \<le> length (spec_batches wd) \<and>
     createCalls (events run) = take K (spec_batches wd) \<and>
     sceneAfter run = Some (sceneBefore create scene (spec_batches wd) K) \<and>
     finished run \<and>
     (case failure run of
        None \<Rightarrow>
          K = length (spec_batches wd) \<and>
          (\<forall>j<K. callThrows create scene (spec_batches wd) j = None) \<and>
          created run = length wd \<and>
          last (events run) = Notify (CreatedAll (length wd))
      | Some e \<Rightarrow>
          1 \<le> K \<and>
          (\<forall>j<K - 1. callThrows create scene (spec_batches wd) j = None) \<and>
          callThrows create scene (spec_batches wd) (K - 1) = Some e \<and>
          created run = (K - 1) * BATCH_SIZE \<and>
          last (events run) = Notify (ErrorProcessingWalls e))"
proof -
  define st0 where "st0 =
    \<lparr>sceneNow = scene,
     trace = (if padding scene \<noteq> 0 then [PaddingWarning ''import''] else []) @
             [Notify (CreatingWalls (length wd))],
     createdCount = 0, thrown = None\<rparr>"
  define st where "st = createBatches create wd 0 st0"
  have r: "run = \<lparr>events = trace st @
            [Notify (case thrown st of None \<Rightarrow> CreatedAll (createdCount st)
                     | Some e \<Rightarrow> ErrorProcessingWalls e)],
          sceneAfter = Some (sceneNow st), created = createdCount st, failure = thrown st,
          finished = True\<rparr>"
    unfolding run processWallImport_loop[OF strip pad] st_def st0_def by (simp add: Let_def)
  have st0: "thrown st0 = None" "sceneNow st0 = scene" "createdCount st0 = 0"
    "createCalls (trace st0) = []"
    by (simp_all add: st0_def createCalls_def)
  from createBatches_run[OF st0(1), of 0 wd create, unfolded st_def[symmetric] st0 drop_0
      diff_zero add_0 append_Nil]
  obtain K where
    K: "K \<le> length (spec_batches wd)"
    and calls: "createCalls (trace st) = take K (spec_batches wd)"
    and sc: "sceneNow st = sceneBefore create scene (spec_batches wd) K"
    and rest: "(case thrown st of
        None \<Rightarrow>
          K = length (spec_batches wd) \<and>
          (\<forall>j<K. callThrows create scene (spec_batches wd) j = None) \<and>
          createdCount st = length wd
      | Some e \<Rightarrow>
          1 \<le> K \<and>
          (\<forall>j<K - 1. callThrows create scene (spec_batches wd) j = None) \<and>
          callThrows create scene (spec_batches wd) (K - 1) = Some e \<and>
          createdCount st = (K - 1) * BATCH_SIZE)"
    by blast
  have ev: "createCalls (events run) = take K (spec_batches wd)"
    by (simp add: r createCalls_append calls) (simp add: createCalls_def)
  show ?thesis
  proof (cases "thrown st")
    case None
    with rest K ev sc show ?thesis
      by (intro exI[of _ K]) (simp add: r)
  next
    case (Some e)
    with rest K ev sc show ?thesis
      by (intro exI[of _ K]) (simp add: r)
  qed
qed

lemma length_assignIds: "length (assignIds n ws) = length ws"
  by (induction ws arbitrary: n) simp_all

lemma assigningHost_never_throws: "callThrows assigningHost s bs j = None"
  by (simp add: callThrows_def assigningHost_def)

lemma spec_batches_250:
  "spec_batches (replicate 250 w) = [replicate 100 w, replicate 100 w, replicate 50 w]"
  by (simp add: spec_batches_def BATCH_SIZE_def upt_conv_Cons)

lemma spec_batches_150:
  "spec_batches (replicate 150 w) = [replicate 100 w, replicate 50 w]"
  by (simp add: spec_batches_def BATCH_SIZE_def upt_conv_Cons)

section \<open>Round trip\<close>

lemma withoutId_idem: "withoutId (withoutId kvs) = withoutId kvs"
  by (simp add: withoutId_def)

lemma sansId_idem: "sansId (sansId w) = sansId w"
  by (cases w) (simp_all add: withoutId_idem)








section \<open>Batching\<close>

text \<open>
  Claim C2: an import of \<open>N\<close> wall records whose creation calls all succeed
  issues exactly \<open>ceil(N / 100)\<close> calls, one per batch and in order, each with at
  most 100 records and together carrying all records; each call meets the scene
  the call before it left; the count reported at the end is \<open>N\<close>.
\<close>

theorem import_in_batches:
  assumes strip: "stripAll ws = Inr wd" and pad: "padding scene = 0 \<or> ans = Continue"
    and ok: "\<forall>j<length (spec_batches wd). callThrows create scene (spec_batches wd) j = None"
    and run: "run = processWallImport create ans (Some scene) (Some (JArr ws))"
  shows "createCalls (events run) = spec_batches wd \<and>
         length (createCalls (events run)) = (length ws + 99) div 100 \<and>
         (\<forall>b\<in>set (createCalls (events run)). length b \<le> 100) \<and>
         concat (createCalls (events run)) = wd \<and>
         sceneAfter run =
           Some (sceneBefore create scene (spec_batches wd) (length (spec_batches wd))) \<and>
         failure run = None \<and> created run = length ws \<and>
         last (events run) = Notify (CreatedAll (length ws)) \<and> finished run"
proof -
  from import_outcome[OF strip pad run] obtain K where
    K: "K \<le> length (spec_batches wd)"
    and calls: "createCalls (events run) = take K (spec_batches wd)"
    and sc: "sceneAfter run = Some (sceneBefore create scene (spec_batches wd) K)"
    and fin: "finished run"
    and rest: "(case failure run of
        None \<Rightarrow>
          K = length (spec_batches wd) \<and>
          (\<forall>j<K. callThrows create scene (spec_batches wd) j = None) \<and>
          created run = length wd \<and>
          last (events run) = Notify (CreatedAll (length wd))
      | Some e \<Rightarrow>
          1 \<le> K \<and>
          (\<forall>j<K - 1. callThrows create scene (spec_batches wd) j = None) \<and>
          callThrows create scene (spec_batches wd) (K - 1) = Some e \<and>
          created run = (K - 1) * BATCH_SIZE \<and>
          last (events run) = Notify (ErrorProcessingWalls e))"
    by blast
  have none: "failure run = None"
  proof (cases "failure run")
    case None
    then show ?thesis .
  next
    case (Some e)
    with rest have "1 \<le> K" "callThrows create scene (spec_batches wd) (K - 1) = Some e"
      by simp_all
    moreover from this(1) K have "K - 1 < length (spec_batches wd)" by simp
    ultimately show ?thesis using ok by simp
  qed
  with rest have full: "K = length (spec_batches wd)" "created run = length wd"
    "last (events run) = Notify (CreatedAll (length wd))"
    by simp_all
  have all: "createCalls (events run) = spec_batches wd"
    using calls full(1) by simp
  show ?thesis
    using all none full sc fin stripAll_length[OF strip]
    by (simp add: spec_batches_length spec_batches_concat spec_batches_size)
qed

theorem import_in_batches_witness:
  "createCalls (events (processWallImport assigningHost Cancel (Some (sceneWith 0 [] []))
       (Some (JArr (map JObj (replicate 250 wallRecord)))))) =
     [replicate 100 (JObj (withoutId wallRecord)), replicate 100 (JObj (withoutId wallRecord)),
      replicate 50 (JObj (withoutId wallRecord))] \<and>
   created (processWallImport assigningHost Cancel (Some (sceneWith 0 [] []))
       (Some (JArr (map JObj (replicate 250 wallRecord))))) = 250 \<and>
   last (events (processWallImport assigningHost Cancel (Some (sceneWith 0 [] []))
       (Some (JArr (map JObj (replicate 250 wallRecord)))))) = Notify (CreatedAll 250)"
proof -
  have h1: "stripAll (map JObj (replicate 250 wallRecord)) =
              Inr (replicate 250 (JObj (withoutId wallRecord)))"
    using stripAll_objects[of "replicate 250 wallRecord"] by simp
  have h2: "padding (sceneWith 0 [] []) = 0 \<or> Cancel = Continue"
    by (simp add: sceneWith_def)
  have h3: "\<forall>j<length (spec_batches (replicate 250 (JObj (withoutId wallRecord)))).
              callThrows assigningHost (sceneWith 0 [] [])
                (spec_batches (replicate 250 (JObj (withoutId wallRecord)))) j = None"
    by (simp add: assigningHost_never_throws)
  from import_in_batches[OF h1 h2 h3 refl] show ?thesis
    by (simp add: spec_batches_250)
qed

section \<open>Partial commit\<close>

text \<open>
  Claim C3: when call number \<open>k\<close> is the first to fail, the import has issued the
  first \<open>k\<close> batches once each and nothing else, \<open>createdCount\<close> is
  \<open>(k - 1) * 100\<close>, the scene is as the \<open>k\<close> calls left it, and the error the
  host threw is the one notified.
\<close>

theorem partial_commit:
  assumes strip: "stripAll ws = Inr wd" and pad: "padding scene = 0 \<or> ans = Continue"
    and k: "1 \<le> k" "k \<le> length (spec_batches wd)"
    and ok: "\<forall>j<k - 1. callThrows create scene (spec_batches wd) j = None"
    and bad: "callThrows create scene (spec_batches wd) (k - 1) = Some e"
    and run: "run = processWallImport create ans (Some scene) (Some (JArr ws))"
  shows "createCalls (events run) = take k (spec_batches wd) \<and>
         created run = (k - 1) * 100 \<and>
         failure run = Some e \<and>
         last (events run) = Notify (ErrorProcessingWalls e) \<and>
         sceneAfter run = Some (sceneBefore create scene (spec_batches wd) k) \<and>
         finished run"
proof -
  from import_outcome[OF strip pad run] obtain K where
    K: "K \<le> length (spec_batches wd)"
    and calls: "createCalls (events run) = take K (spec_batches wd)"
    and sc: "sceneAfter run = Some (sceneBefore create scene (spec_batches wd) K)"
    and fin: "finished run"
    and rest: "(case failure run of
        None \<Rightarrow>
          K = length (spec_batches wd) \<and>
          (\<forall>j<K. callThrows create scene (spec_batches wd) j = None) \<and>
          created run = length wd \<and>
          last (events run) = Notify (CreatedAll (length wd))
      | Some e \<Rightarrow>
          1 \<le> K \<and>
          (\<forall>j<K - 1. callThrows create scene (spec_batches wd) j = None) \<and>
          callThrows create scene (spec_batches wd) (K - 1) = Some e \<and>
          created run = (K - 1) * BATCH_SIZE \<and>
          last (events run) = Notify (ErrorProcessingWalls e))"
    by blast
  have km: "k - 1 < length (spec_batches wd)" using k by simp
  show ?thesis
  proof (cases "failure run")
    case None
    with rest have "K = length (spec_batches wd)"
      "\<forall>j<K. callThrows create scene (spec_batches wd) j = None"
      by simp_all
    with km bad show ?thesis by simp
  next
    case (Some e')
    with rest have r: "1 \<le> K"
      "\<forall>j<K - 1. callThrows create scene (spec_batches wd) j = None"
      "callThrows create scene (spec_batches wd) (K - 1) = Some e'"
      "created run = (K - 1) * BATCH_SIZE"
      "last (events run) = Notify (ErrorProcessingWalls e')"
      by simp_all
    have "\<not> K - 1 < k - 1" using ok r(3) by auto
    moreover have "\<not> k - 1 < K - 1" using r(2) bad by auto
    ultimately have "K - 1 = k - 1" by simp
    with k(1) r(1) have same: "K = k" by simp
    with r(3) bad have "e' = e" by simp
    with same Some r calls sc fin show ?thesis by (simp add: BATCH_SIZE_def)
  qed
qed

theorem partial_commit_witness:
  "createCalls (events (processWallImport (limitedHost 100) Cancel (Some (sceneWith 0 [] []))
       (Some (JArr (map JObj (replicate 150 wallRecord)))))) =
     [replicate 100 (JObj (withoutId wallRecord)), replicate 50 (JObj (withoutId wallRecord))] \<and>
   created (processWallImport (limitedHost 100) Cancel (Some (sceneWith 0 [] []))
       (Some (JArr (map JObj (replicate 150 wallRecord))))) = 100 \<and>
   failure (processWallImport (limitedHost 100) Cancel (Some (sceneWith 0 [] []))
       (Some (JArr (map JObj (replicate 150 wallRecord))))) = Some (Error ''too many walls'') \<and>
   last (events (processWallImport (limitedHost 100) Cancel (Some (sceneWith 0 [] []))
       (Some (JArr (map JObj (replicate 150 wallRecord)))))) =
     Notify (ErrorProcessingWalls (Error ''too many walls''))"
proof -
  have h1: "stripAll (map JObj (replicate 150 wallRecord)) =
              Inr (replicate 150 (JObj (withoutId wallRecord)))"
    using stripAll_objects[of "replicate 150 wallRecord"] by simp
  have h2: "padding (sceneWith 0 [] []) = 0 \<or> Cancel = Continue"
    by (simp add: sceneWith_def)
  have k: "1 \<le> (2::nat)" "2 \<le> length (spec_batches (replicate 150 (JObj (withoutId wallRecord))))"
    by (simp_all add: spec_batches_150)
  have ok: "\<forall>j<2 - 1. callThrows (limitedHost 100) (sceneWith 0 [] [])
                (spec_batches (replicate 150 (JObj (withoutId wallRecord)))) j = None"
    by (simp add: spec_batches_150 callThrows_def sceneBefore_def limitedHost_def
        assigningHost_def sceneWith_def)
  have bad: "callThrows (limitedHost 100) (sceneWith 0 [] [])
                (spec_batches (replicate 150 (JObj (withoutId wallRecord)))) (2 - 1) =
             Some (Error ''too many walls'')"
    by (simp add: spec_batches_150 callThrows_def sceneBefore_def limitedHost_def
        assigningHost_def sceneWith_def hostStep_def length_assignIds)
  from partial_commit[OF h1 h2 k ok bad refl] show ?thesis
    by (simp add: spec_batches_150)
qed

section \<open>The padding check\<close>

lemma no_calls_without_loop:
  "createCalls [Notify n] = []" "createCalls [] = []" "createCalls [PaddingWarning operation] = []"
  "createCalls [PaddingWarning operation, Notify n] = []"
  by (simp_all add: createCalls_def)

text \<open>
  Claim C4: on a scene with non-zero padding, an import (of an array payload) and
  an export first show the padding dialog, and when the user cancels nothing is
  created, the scene is unchanged and nothing is written to the clipboard or to a
  file; on a scene with zero padding no dialog is shown, the answer plays no role,
  and the import begins creating walls and the export returns the scene's walls.
\<close>

theorem padding_precondition:
  "(padding scene \<noteq> 0 \<longrightarrow>
      (\<exists>rest. events (processWallImport create ans (Some scene) (Some (JArr ws))) =
                PaddingWarning ''import'' # rest) \<and>
      processWallImport create Cancel (Some scene) (Some (JArr ws)) =
        \<lparr>events = [PaddingWarning ''import''], sceneAfter = Some scene, created = 0,
         failure = None, finished = True\<rparr> \<and>
      createCalls (events (processWallImport create Cancel (Some scene) parsed)) = [] \<and>
      sceneAfter (processWallImport create Cancel (Some scene) parsed) = Some scene \<and>
      fst (getWallsJson ans (Some scene)) = [PaddingWarning ''export''] \<and>
      getWallsJson Cancel (Some scene) =
        ([PaddingWarning ''export''], Threw (Error ''Wall export cancelled.'')) \<and>
      exportWallsToClipboard denied Cancel (Some scene) =
        [PaddingWarning ''export'', Notify FailedToCopyWalls] \<and>
      exported (exportWallsToClipboard denied Cancel (Some scene)) = [] \<and>
      exported (exportWallsToFile Cancel (Some scene)) = []) \<and>
   (padding scene = 0 \<longrightarrow>
      paddingWarnings (events (processWallImport create ans (Some scene) parsed)) = [] \<and>
      processWallImport create ans (Some scene) parsed =
        processWallImport create Continue (Some scene) parsed \<and>
      (\<forall>wd. stripAll ws = Inr wd \<longrightarrow>
         (\<exists>rest. events (processWallImport create ans (Some scene) (Some (JArr ws))) =
                   Notify (CreatingWalls (length ws)) # rest)) \<and>
      getWallsJson ans (Some scene) = ([], Returned (JArr (walls scene))) \<and>
      exportWallsToClipboard False ans (Some scene) =
        [ClipboardWrite (JArr (walls scene)), Notify WallsCopied])"
proof (intro conjI impI)
  assume nz: "padding scene \<noteq> 0"
  show "\<exists>rest. events (processWallImport create ans (Some scene) (Some (JArr ws))) =
                PaddingWarning ''import'' # rest"
  proof (cases ans)
    case Continue
    show ?thesis
    proof (cases "stripAll ws")
      case (Inl e)
      with nz Continue show ?thesis
        by (simp add: processWallImport_def showPaddingWarning_def)
    next
      case (Inr wd)
      from createBatches_prefix[of create wd 0
          "\<lparr>sceneNow = scene,
            trace = [PaddingWarning ''import''] @ [Notify (CreatingWalls (length wd))],
            createdCount = 0, thrown = None\<rparr>"]
      obtain rest where "trace (createBatches create wd 0
          \<lparr>sceneNow = scene,
            trace = [PaddingWarning ''import''] @ [Notify (CreatingWalls (length wd))],
            createdCount = 0, thrown = None\<rparr>) =
          ([PaddingWarning ''import''] @ [Notify (CreatingWalls (length wd))]) @ rest"
        by auto
      with nz Continue Inr show ?thesis
        by (simp add: processWallImport_def showPaddingWarning_def Let_def)
    qed
  next
    case Cancel
    with nz show ?thesis by (simp add: processWallImport_def showPaddingWarning_def)
  next
    case Unanswered
    with nz show ?thesis by (simp add: processWallImport_def showPaddingWarning_def)
  qed
  show "processWallImport create Cancel (Some scene) (Some (JArr ws)) =
        \<lparr>events = [PaddingWarning ''import''], sceneAfter = Some scene, created = 0,
         failure = None, finished = True\<rparr>"
    using nz by (simp add: processWallImport_def showPaddingWarning_def)
  show "createCalls (events (processWallImport create Cancel (Some scene) parsed)) = []"
    using nz
    by (simp add: processWallImport_def showPaddingWarning_def no_calls_without_loop
        split: option.splits json.splits)
  show "sceneAfter (processWallImport create Cancel (Some scene) parsed) = Some scene"
    using nz
    by (simp add: processWallImport_def showPaddingWarning_def split: option.splits json.splits)
  show "fst (getWallsJson ans (Some scene)) = [PaddingWarning ''export'']"
    using nz by (cases ans) (simp_all add: getWallsJson_def showPaddingWarning_def)
  show c: "getWallsJson Cancel (Some scene) =
        ([PaddingWarning ''export''], Threw (Error ''Wall export cancelled.''))"
    using nz by (simp add: getWallsJson_def showPaddingWarning_def)
  show "exportWallsToClipboard denied Cancel (Some scene) =
        [PaddingWarning ''export'', Notify FailedToCopyWalls]"
    by (simp add: exportWallsToClipboard_def c)
  show "exported (exportWallsToClipboard denied Cancel (Some scene)) = []"
    by (simp add: exportWallsToClipboard_def c exported_def)
  show "exported (exportWallsToFile Cancel (Some scene)) = []"
    by (simp add: exportWallsToFile_def c exported_def)
next
  assume z: "padding scene = 0"
  show same: "processWallImport create ans (Some scene) parsed =
        processWallImport create Continue (Some scene) parsed"
    using z by (simp add: processWallImport_def split: option.splits json.splits)
  show "paddingWarnings (events (processWallImport create ans (Some scene) parsed)) = []"
  proof (cases "\<exists>ws wd. parsed = Some (JArr ws) \<and> stripAll ws = Inr wd")
    case True
    then obtain ws wd where p: "parsed = Some (JArr ws)" and s: "stripAll ws = Inr wd"
      by blast
    have st0: "thrown \<lparr>sceneNow = scene, trace = [Notify (CreatingWalls (length wd))],
                 createdCount = 0, thrown = None\<rparr> = None"
      by simp
    from createBatches_run[OF st0, of 0 wd create]
    have "paddingWarnings (trace (createBatches create wd 0
             \<lparr>sceneNow = scene, trace = [Notify (CreatingWalls (length wd))],
               createdCount = 0, thrown = None\<rparr>)) = []"
      by (auto simp: paddingWarnings_def)
    with z p s show ?thesis
      by (simp add: processWallImport_def paddingWarnings_append Let_def)
         (simp add: paddingWarnings_def)
  next
    case False
    with z show ?thesis
      by (auto simp: processWallImport_def paddingWarnings_def
          split: option.splits json.splits sum.splits)
  qed
  show "\<forall>wd. stripAll ws = Inr wd \<longrightarrow>
         (\<exists>rest. events (processWallImport create ans (Some scene) (Some (JArr ws))) =
                   Notify (CreatingWalls (length ws)) # rest)"
  proof (intro allI impI)
    fix wd assume s: "stripAll ws = Inr wd"
    from createBatches_prefix[of create wd 0
          "\<lparr>sceneNow = scene, trace = [Notify (CreatingWalls (length wd))],
            createdCount = 0, thrown = None\<rparr>"]
    obtain rest where "trace (createBatches create wd 0
          \<lparr>sceneNow = scene, trace = [Notify (CreatingWalls (length wd))],
            createdCount = 0, thrown = None\<rparr>) =
          [Notify (CreatingWalls (length wd))] @ rest"
      by auto
    with z s stripAll_length[OF s] show
      "\<exists>rest. events (processWallImport create ans (Some scene) (Some (JArr ws))) =
                   Notify (CreatingWalls (length ws)) # rest"
      by (simp add: processWallImport_def Let_def)
  qed
  show g: "getWallsJson ans (Some scene) = ([], Returned (JArr (walls scene)))"
    using z by (simp add: getWallsJson_def)
  show "exportWallsToClipboard False ans (Some scene) =
        [ClipboardWrite (JArr (walls scene)), Notify WallsCopied]"
    by (simp add: exportWallsToClipboard_def g)
qed

theorem padding_precondition_witness:
  "padding (sceneWith (1/4) [JObj wallRecord] []) \<noteq> 0 \<and>
   processWallImport assigningHost Cancel (Some (sceneWith (1/4) [JObj wallRecord] []))
       (Some (JArr [JObj wallRecord])) =
     \<lparr>events = [PaddingWarning ''import''],
      sceneAfter = Some (sceneWith (1/4) [JObj wallRecord] []), created = 0,
      failure = None, finished = True\<rparr> \<and>
   exportWallsToClipboard False Cancel (Some (sceneWith (1/4) [JObj wallRecord] [])) =
     [PaddingWarning ''export'', Notify FailedToCopyWalls] \<and>
   padding (sceneWith 0 [JObj wallRecord] []) = 0 \<and>
   paddingWarnings (events (processWallImport assigningHost Cancel
       (Some (sceneWith 0 [JObj wallRecord] [])) (Some (JArr [JObj wallRecord])))) = [] \<and>
   stripAll [JObj wallRecord] = Inr [JObj (withoutId wallRecord)] \<and>
   take 1 (events (processWallImport assigningHost Cancel
       (Some (sceneWith 0 [JObj wallRecord] [])) (Some (JArr [JObj wallRecord])))) =
     [Notify (CreatingWalls 1)] \<and>
   exportWallsToClipboard False Cancel (Some (sceneWith 0 [JObj wallRecord] [])) =
     [ClipboardWrite (JArr [JObj wallRecord]), Notify WallsCopied]"
proof -
  have s: "stripAll [JObj wallRecord] = Inr [JObj (withoutId wallRecord)]"
    by (simp add: stripIdentity_def)
  from padding_precondition[where scene = "sceneWith (1/4) [JObj wallRecord] []"
      and create = assigningHost and ws = "[JObj wallRecord]" and denied = False]
    padding_precondition[where scene = "sceneWith 0 [JObj wallRecord] []" and ans = Cancel
      and create = assigningHost and ws = "[JObj wallRecord]"
      and parsed = "Some (JArr [JObj wallRecord])"] s
  show ?thesis
    by (auto simp: sceneWith_def)
qed

section \<open>Lemmas about the bounds\<close>

lemma min_Min_insert: "finite A \<Longrightarrow> Min (insert (min (m::real) x) A) = Min (insert m (insert x A))"
  by (cases "A = {}") (simp_all add: min.assoc)

lemma max_Max_insert: "finite A \<Longrightarrow> Max (insert (max (m::real) x) A) = Max (insert m (insert x A))"
  by (cases "A = {}") (simp_all add: max.assoc)

lemma foldl_extend_finite:
  "minX b = Num a \<Longrightarrow> minY b = Num c \<Longrightarrow> maxX b = Num d \<Longrightarrow> maxY b = Num e \<Longrightarrow>
   foldl extendBounds b ts =
     \<lparr>minX = Num (Min (insert a (tileX ` set ts))),
      minY = Num (Min (insert c (tileY ` set ts))),
      maxX = Num (Max (insert d ((\<lambda>t. tileX t + tileWidth t) ` set ts))),
      maxY = Num (Max (insert e ((\<lambda>t. tileY t + tileHeight t) ` set ts)))\<rparr>"
proof (induction ts arbitrary: b a c d e)
  case Nil
  then show ?case by simp
next
  case (Cons t ts)
  have "foldl extendBounds (extendBounds b t) ts =
     \<lparr>minX = Num (Min (insert (min a (tileX t)) (tileX ` set ts))),
      minY = Num (Min (insert (min c (tileY t)) (tileY ` set ts))),
      maxX = Num (Max (insert (max d (tileX t + tileWidth t)) ((\<lambda>t. tileX t + tileWidth t) ` set ts))),
      maxY = Num (Max (insert (max e (tileY t + tileHeight t)) ((\<lambda>t. tileY t + tileHeight t) ` set ts)))\<rparr>"
    by (rule Cons.IH) (simp_all add: extendBounds_def Cons.prems)
  then show ?case
    by (simp add: min_Min_insert max_Max_insert)
qed

text \<open>On a non-empty tile set the first pass computes the tightest rectangle.\<close>

lemma scanBounds_tightest: "ts \<noteq> [] \<Longrightarrow> scanBounds ts = spec_tightestBounds ts"
proof (cases ts)
  case Nil
  then show "ts \<noteq> [] \<Longrightarrow> ?thesis" by simp
next
  case (Cons t us)
  have "scanBounds (t # us) = foldl extendBounds (extendBounds initialBounds t) us"
    by (simp add: scanBounds_def)
  also have "\<dots> = \<lparr>minX = Num (Min (insert (tileX t) (tileX ` set us))),
      minY = Num (Min (insert (tileY t) (tileY ` set us))),
      maxX = Num (Max (insert (tileX t + tileWidth t) ((\<lambda>t. tileX t + tileWidth t) ` set us))),
      maxY = Num (Max (insert (tileY t + tileHeight t) ((\<lambda>t. tileY t + tileHeight t) ` set us)))\<rparr>"
    by (rule foldl_extend_finite) (simp_all add: extendBounds_def initialBounds_def)
  finally show ?thesis using Cons by (simp add: spec_tightestBounds_def)
qed

lemma canvasWidth_finite:
  "minX b = Num mn \<Longrightarrow> maxX b = Num mx \<Longrightarrow>
   canvasWidth (ensureExtent b) = Num (of_int \<lceil>if mx \<le> mn then 1 else mx - mn\<rceil>)"
  by (simp add: ensureExtent_def canvasWidth_def js_sub_def)

lemma canvasHeight_finite:
  "minY b = Num mn \<Longrightarrow> maxY b = Num mx \<Longrightarrow>
   canvasHeight (ensureExtent b) = Num (of_int \<lceil>if mx \<le> mn then 1 else mx - mn\<rceil>)"
  by (simp add: ensureExtent_def canvasHeight_def js_sub_def)

lemma extent_ge_1: "(1::int) \<le> \<lceil>if mx \<le> mn then 1 else mx - (mn::real)\<rceil>"
  by (cases "mx \<le> mn") simp_all

lemma canvas_dims:
  assumes "ts \<noteq> []"
  shows "\<exists>w h. canvasWidth (computeBounds ts) = Num (of_int w) \<and>
               canvasHeight (computeBounds ts) = Num (of_int h) \<and> 1 \<le> w \<and> 1 \<le> h"
proof -
  define b where "b = scanBounds ts"
  obtain mnx mny mxx mxy where
    b: "minX b = Num mnx" "minY b = Num mny" "maxX b = Num mxx" "maxY b = Num mxy"
    unfolding b_def scanBounds_tightest[OF assms] spec_tightestBounds_def by simp
  have "canvasWidth (computeBounds ts) = Num (of_int \<lceil>if mxx \<le> mnx then 1 else mxx - mnx\<rceil>)"
    unfolding computeBounds_def b_def[symmetric] using b by (rule_tac canvasWidth_finite)
  moreover have "canvasHeight (computeBounds ts) = Num (of_int \<lceil>if mxy \<le> mny then 1 else mxy - mny\<rceil>)"
    unfolding computeBounds_def b_def[symmetric] using b by (rule_tac canvasHeight_finite)
  ultimately show ?thesis
    using extent_ge_1[of mxx mnx] extent_ge_1[of mxy mny] by blast
qed

lemma computeBounds_nonempty:
  assumes "ts \<noteq> []"
  shows "\<exists>mnx mny mxx mxy.
           spec_tightestBounds ts = \<lparr>minX = Num mnx, minY = Num mny, maxX = Num mxx, maxY = Num mxy\<rparr> \<and>
           computeBounds ts =
             \<lparr>minX = Num mnx, minY = Num mny,
              maxX = Num (if mxx \<le> mnx then mnx + 1 else mxx),
              maxY = Num (if mxy \<le> mny then mny + 1 else mxy)\<rparr>"
  using assms
  by (simp add: computeBounds_def scanBounds_tightest spec_tightestBounds_def ensureExtent_def)

section \<open>Lemmas about the second pass\<close>

text \<open>
  What a tile adds to the state of the second pass is what it adds to the initial
  state: the tiles processed before it have no influence.
\<close>

lemma drawTile_alone:
  "drawn (drawTile env b st t) = drawn st @ drawn (drawTile env b initialDrawState t) \<and>
   loadedCount (drawTile env b st t) = loadedCount st + loadedCount (drawTile env b initialDrawState t) \<and>
   failedCount (drawTile env b st t) = failedCount st + failedCount (drawTile env b initialDrawState t)"
  by (simp add: drawTile_def initialDrawState_def split: option.splits)

lemma drawTile_one:
  "(loadedCount (drawTile env b initialDrawState t) = 1 \<and>
      failedCount (drawTile env b initialDrawState t) = 0) \<or>
   (loadedCount (drawTile env b initialDrawState t) = 0 \<and>
      failedCount (drawTile env b initialDrawState t) = 1)"
  by (simp add: drawTile_def initialDrawState_def split: option.splits)

lemma drawTiles_alone:
  "drawn (drawTiles env b st ts) =
     drawn st @ concat (map (\<lambda>t. drawn (drawTile env b initialDrawState t)) ts) \<and>
   loadedCount (drawTiles env b st ts) =
     loadedCount st + length (filter (\<lambda>t. loadedCount (drawTile env b initialDrawState t) = 1) ts) \<and>
   failedCount (drawTiles env b st ts) =
     failedCount st + length (filter (\<lambda>t. failedCount (drawTile env b initialDrawState t) = 1) ts)"
proof (induction ts arbitrary: st)
  case Nil
  show ?case by simp
next
  case (Cons t ts)
  show ?case
    using Cons[of "drawTile env b st t"] drawTile_alone[of env b st t] drawTile_one[of env b t]
    by auto
qed

lemma drawTiles_total:
  "loadedCount (drawTiles env b st ts) + failedCount (drawTiles env b st ts) =
     loadedCount st + failedCount st + length ts"
proof (induction ts arbitrary: st)
  case Nil
  show ?case by simp
next
  case (Cons t ts)
  show ?case
    using Cons[of "drawTile env b st t"] drawTile_alone[of env b st t] drawTile_one[of env b t]
    by auto
qed

section \<open>The minimum extent of the canvas\<close>

text \<open>
  Claim C5 fails as stated on the empty tile collection, which never reaches the
  bounds computation: the export ends with the warning that the scene has no
  tiles, and no canvas is sized. Run on an empty collection, the bounds code would
  yield \<open>NaN\<close> for both dimensions.
\<close>

theorem empty_tiles_no_canvas:
  "exportSceneTilesAsImage goodEnv (Some (sceneWith 0 [] [])) = [Notify NoTilesToExport] \<and>
   canvasWidth (computeBounds []) = NaN \<and> canvasHeight (computeBounds []) = NaN"
  by (simp add: exportSceneTilesAsImage_def sceneWith_def computeBounds_def scanBounds_def
      initialBounds_def ensureExtent_def canvasWidth_def canvasHeight_def js_sub_def)

text \<open>
  Claim C5, amended: the export of an empty tile collection stops with a warning
  and sizes no canvas; a collection holding only a tile of width 0 and height 0
  whose \<open>x\<close> and \<open>y\<close> are integers of magnitude below \<open>2^53\<close> has bounds of
  width and height exactly 1, and the canvas is sized 1 by 1.

  The bound on the coordinates is where the sums and the difference computed here
  (\<open>x + 0\<close>, \<open>minX + 1\<close>, \<open>maxX - minX\<close>) are exact in double arithmetic, so
  that the exact numbers of this model are the numbers of the code. Nothing is
  stated about coordinates outside it.
\<close>

theorem canvas_at_least_one:
  "(tiles scene = [] \<longrightarrow> exportSceneTilesAsImage env (Some scene) = [Notify NoTilesToExport]) \<and>
   (tileWidth t = 0 \<and> tileHeight t = 0 \<and>
    tileX t \<in> \<int> \<and> \<bar>tileX t\<bar> < 2 ^ 53 \<and> tileY t \<in> \<int> \<and> \<bar>tileY t\<bar> < 2 ^ 53 \<longrightarrow>
      canvasWidth (computeBounds [t]) = Num 1 \<and> canvasHeight (computeBounds [t]) = Num 1 \<and>
      js_le (Num 1) (canvasWidth (computeBounds [t])) \<and>
      js_le (Num 1) (canvasHeight (computeBounds [t])) \<and>
      (getContext env \<longrightarrow>
         take 3 (exportSceneTilesAsImage env (Some (scene\<lparr>tiles := [t]\<rparr>))) =
           [Notify (PreparingTiles 1), SetCanvasSize (Num 1) (Num 1), ClearRect (Num 1) (Num 1)]))"
proof (intro conjI impI)
  assume "tiles scene = []"
  then show "exportSceneTilesAsImage env (Some scene) = [Notify NoTilesToExport]"
    by (simp add: exportSceneTilesAsImage_def)
next
  assume z: "tileWidth t = 0 \<and> tileHeight t = 0 \<and>
    tileX t \<in> \<int> \<and> \<bar>tileX t\<bar> < 2 ^ 53 \<and> tileY t \<in> \<int> \<and> \<bar>tileY t\<bar> < 2 ^ 53"
  have s: "scanBounds [t] = \<lparr>minX = Num (tileX t), minY = Num (tileY t),
       maxX = Num (tileX t + tileWidth t), maxY = Num (tileY t + tileHeight t)\<rparr>"
    by (simp add: scanBounds_def extendBounds_def initialBounds_def)
  show w: "canvasWidth (computeBounds [t]) = Num 1"
    using z by (simp add: computeBounds_def s ensureExtent_def canvasWidth_def js_sub_def)
  show h: "canvasHeight (computeBounds [t]) = Num 1"
    using z by (simp add: computeBounds_def s ensureExtent_def canvasHeight_def js_sub_def)
  show "js_le (Num 1) (canvasWidth (computeBounds [t]))"
    by (simp add: w)
  show "js_le (Num 1) (canvasHeight (computeBounds [t]))"
    by (simp add: h)
  assume "getContext env"
  then show "take 3 (exportSceneTilesAsImage env (Some (scene\<lparr>tiles := [t]\<rparr>))) =
           [Notify (PreparingTiles 1), SetCanvasSize (Num 1) (Num 1), ClearRect (Num 1) (Num 1)]"
    by (simp add: exportSceneTilesAsImage_def w h MAX_DIMENSION_def Let_def numeral_3_eq_3)
qed

theorem canvas_at_least_one_witness:
  "tiles (sceneWith 0 [] []) = [] \<and>
   exportSceneTilesAsImage goodEnv (Some (sceneWith 0 [] [])) = [Notify NoTilesToExport] \<and>
   tileWidth (plainTile 3 4 0 0 ''a.png'') = 0 \<and> tileHeight (plainTile 3 4 0 0 ''a.png'') = 0 \<and>
   tileX (plainTile 3 4 0 0 ''a.png'') = 3 \<and> tileY (plainTile 3 4 0 0 ''a.png'') = 4 \<and>
   (3::real) \<in> \<int> \<and> \<bar>3::real\<bar> < 2 ^ 53 \<and> (4::real) \<in> \<int> \<and> \<bar>4::real\<bar> < 2 ^ 53 \<and>
   canvasWidth (computeBounds [plainTile 3 4 0 0 ''a.png'']) = Num 1 \<and>
   canvasHeight (computeBounds [plainTile 3 4 0 0 ''a.png'']) = Num 1 \<and>
   getContext goodEnv \<and>
   take 3 (exportSceneTilesAsImage goodEnv
     (Some ((sceneWith 0 [] [])\<lparr>tiles := [plainTile 3 4 0 0 ''a.png'']\<rparr>))) =
     [Notify (PreparingTiles 1), SetCanvasSize (Num 1) (Num 1), ClearRect (Num 1) (Num 1)]"
proof -
  have x: "tileX (plainTile 3 4 0 0 ''a.png'') = 3" "tileY (plainTile 3 4 0 0 ''a.png'') = 4"
    "tileWidth (plainTile 3 4 0 0 ''a.png'') = 0" "tileHeight (plainTile 3 4 0 0 ''a.png'') = 0"
    by (simp_all add: plainTile_def tileX_def tileY_def tileWidth_def tileHeight_def orZero_def
        js_or_def truthyNum_def docProp_def)
  from canvas_at_least_one[of "sceneWith 0 [] []" goodEnv "plainTile 3 4 0 0 ''a.png''"]
  show ?thesis
    by (simp add: x) (simp add: sceneWith_def goodEnv_def)
qed

section \<open>The size ceiling\<close>

text \<open>
  Claim C6: when the tiles' bounds give a canvas width or height above 16384, the
  export ends with the size error and the canvas dimensions are never set; a width
  and height of at most 16384 pass the check, and the canvas is sized.
\<close>

theorem size_ceiling:
  assumes "tiles scene \<noteq> []" and "getContext env"
  shows "\<exists>w h. canvasWidth (computeBounds (tiles scene)) = Num w \<and>
               canvasHeight (computeBounds (tiles scene)) = Num h \<and>
               (if 16384 < w \<or> 16384 < h
                then exportSceneTilesAsImage env (Some scene) =
                       [Notify (PreparingTiles (length (tiles scene))),
                        Notify (CanvasTooLarge (Num w) (Num h))]
                else take 3 (exportSceneTilesAsImage env (Some scene)) =
                       [Notify (PreparingTiles (length (tiles scene))),
                        SetCanvasSize (Num w) (Num h), ClearRect (Num w) (Num h)])"
proof -
  from canvas_dims[OF assms(1)] obtain w h where
    wh: "canvasWidth (computeBounds (tiles scene)) = Num (of_int w)"
        "canvasHeight (computeBounds (tiles scene)) = Num (of_int h)"
    by blast
  have "if 16384 < (of_int w :: real) \<or> 16384 < (of_int h :: real)
        then exportSceneTilesAsImage env (Some scene) =
               [Notify (PreparingTiles (length (tiles scene))),
                Notify (CanvasTooLarge (Num (of_int w)) (Num (of_int h)))]
        else take 3 (exportSceneTilesAsImage env (Some scene)) =
               [Notify (PreparingTiles (length (tiles scene))),
                SetCanvasSize (Num (of_int w)) (Num (of_int h)),
                ClearRect (Num (of_int w)) (Num (of_int h))]"
    using assms wh by (simp add: exportSceneTilesAsImage_def MAX_DIMENSION_def Let_def)
  with wh show ?thesis by blast
qed

theorem size_ceiling_witness:
  "tiles (sceneWith 0 [] [plainTile 0 0 16385 10 ''a.png'']) \<noteq> [] \<and> getContext goodEnv \<and>
   exportSceneTilesAsImage goodEnv (Some (sceneWith 0 [] [plainTile 0 0 16385 10 ''a.png''])) =
     [Notify (PreparingTiles 1), Notify (CanvasTooLarge (Num 16385) (Num 10))] \<and>
   tiles (sceneWith 0 [] [plainTile 0 0 16384 10 ''a.png'']) \<noteq> [] \<and>
   take 3 (exportSceneTilesAsImage goodEnv (Some (sceneWith 0 [] [plainTile 0 0 16384 10 ''a.png'']))) =
     [Notify (PreparingTiles 1), SetCanvasSize (Num 16384) (Num 10), ClearRect (Num 16384) (Num 10)]"
  using size_ceiling[of "sceneWith 0 [] [plainTile 0 0 16385 10 ''a.png'']" goodEnv]
        size_ceiling[of "sceneWith 0 [] [plainTile 0 0 16384 10 ''a.png'']" goodEnv]
  by (simp add: sceneWith_def plainTile_def goodEnv_def computeBounds_def scanBounds_def
      extendBounds_def initialBounds_def ensureExtent_def canvasWidth_def canvasHeight_def
      js_sub_def tileX_def tileY_def tileWidth_def tileHeight_def orZero_def js_or_def
      truthyNum_def docProp_def)

section \<open>Bounds and drawing offsets\<close>

text \<open>
  Claim C7 fails as stated on a degenerate tile set: for a single tile of width 0
  at \<open>x = 0\<close> the maximum of \<open>x + width\<close> is 0, but the bounds have
  \<open>maxX = 1\<close>, by the minimum extent rule.
\<close>

theorem degenerate_bounds_not_tightest:
  "maxX (computeBounds [plainTile 0 0 0 0 ''a.png'']) = Num 1 \<and>
   maxX (spec_tightestBounds [plainTile 0 0 0 0 ''a.png'']) = Num 0"
  by (simp add: plainTile_def computeBounds_def scanBounds_def spec_tightestBounds_def
      extendBounds_def initialBounds_def ensureExtent_def 
      tileX_def tileY_def tileWidth_def tileHeight_def orZero_def js_or_def
      truthyNum_def docProp_def)

text \<open>
  Claim C7, amended: for every non-empty tile set, \<open>minX\<close> and \<open>minY\<close> are the
  minima over all \<open>(x, y)\<close>; \<open>maxX\<close> is the maximum over all \<open>x + width\<close> when
  that exceeds \<open>minX\<close> and \<open>minX + 1\<close> otherwise, and likewise \<open>maxY\<close>; every
  tile that loads and draws is drawn at \<open>(x - minX, y - minY)\<close> with size
  \<open>(width, height)\<close>. The witness is the example of the claim.
\<close>

theorem bounds_and_offsets:
  assumes "ts \<noteq> []"
  shows "\<exists>mnx mny mxx mxy.
           spec_tightestBounds ts = \<lparr>minX = Num mnx, minY = Num mny, maxX = Num mxx, maxY = Num mxy\<rparr> \<and>
           computeBounds ts =
             \<lparr>minX = Num mnx, minY = Num mny,
              maxX = Num (if mxx \<le> mnx then mnx + 1 else mxx),
              maxY = Num (if mxy \<le> mny then mny + 1 else mxy)\<rparr> \<and>
           (\<forall>env st t s i.
              textureSrc t = Some s \<and> loadImage env s = Some i \<and>
              \<not> drawImageThrows env (drawCallOf (computeBounds ts) t i) \<longrightarrow>
              drawn (drawTile env (computeBounds ts) st t) =
                drawn st @
                [DrawImage \<lparr>source = i, sx = 0, sy = 0, sWidth = imageWidth i,
                   sHeight = imageHeight i, dx = Num (tileX t - mnx), dy = Num (tileY t - mny),
                   dWidth = tileWidth t, dHeight = tileHeight t\<rparr>])"
proof -
  from computeBounds_nonempty[OF assms] obtain mnx mny mxx mxy where
    sp: "spec_tightestBounds ts = \<lparr>minX = Num mnx, minY = Num mny, maxX = Num mxx, maxY = Num mxy\<rparr>"
    and cb: "computeBounds ts =
             \<lparr>minX = Num mnx, minY = Num mny,
              maxX = Num (if mxx \<le> mnx then mnx + 1 else mxx),
              maxY = Num (if mxy \<le> mny then mny + 1 else mxy)\<rparr>"
    by blast
  have "drawn (drawTile env (computeBounds ts) st t) =
          drawn st @
          [DrawImage \<lparr>source = i, sx = 0, sy = 0, sWidth = imageWidth i,
             sHeight = imageHeight i, dx = Num (tileX t - mnx), dy = Num (tileY t - mny),
             dWidth = tileWidth t, dHeight = tileHeight t\<rparr>]"
    if "textureSrc t = Some s \<and> loadImage env s = Some i \<and>
        \<not> drawImageThrows env (drawCallOf (computeBounds ts) t i)" for env st t s i
    using that by (simp add: drawTile_def drawCallOf_def cb js_sub_def)
  with sp cb show ?thesis by blast
qed

theorem bounds_and_offsets_witness:
  "[plainTile 10 20 5 5 ''a.png'', plainTile 0 0 2 2 ''b.png''] \<noteq> [] \<and>
   computeBounds [plainTile 10 20 5 5 ''a.png'', plainTile 0 0 2 2 ''b.png''] =
     \<lparr>minX = Num 0, minY = Num 0, maxX = Num 15, maxY = Num 25\<rparr> \<and>
   exportSceneTilesAsImage goodEnv
     (Some (sceneWith 0 [] [plainTile 10 20 5 5 ''a.png'', plainTile 0 0 2 2 ''b.png''])) =
     [Notify (PreparingTiles 2), SetCanvasSize (Num 15) (Num 25), ClearRect (Num 15) (Num 25),
      Notify LoadingTileImages,
      DrawImage \<lparr>source = Image ''a.png'' 64 64, sx = 0, sy = 0, sWidth = 64, sHeight = 64,
                 dx = Num 10, dy = Num 20, dWidth = 5, dHeight = 5\<rparr>,
      DrawImage \<lparr>source = Image ''b.png'' 64 64, sx = 0, sy = 0, sWidth = 64, sHeight = 64,
                 dx = Num 0, dy = Num 0, dWidth = 2, dHeight = 2\<rparr>,
      SaveAs, Notify (TilesExported 2)]"
  using bounds_and_offsets[of "[plainTile 10 20 5 5 ''a.png'', plainTile 0 0 2 2 ''b.png'']"]
  by (simp add: sceneWith_def plainTile_def goodEnv_def computeBounds_def scanBounds_def
      extendBounds_def initialBounds_def ensureExtent_def canvasWidth_def canvasHeight_def
      js_sub_def tileX_def tileY_def tileWidth_def tileHeight_def orZero_def js_or_def
      truthyNum_def docProp_def exportSceneTilesAsImage_def MAX_DIMENSION_def
      initialDrawState_def drawTile_def drawCallOf_def textureSrc_def textureOf_def
      truthyStr_def imageWidth_def imageHeight_def finishExport_def Let_def
      numeral_2_eq_2)

section \<open>Image source resolution\<close>

text \<open>
  Claim C8: the image source of a tile is the first non-empty value among the
  direct texture reference, the nested document's texture reference, the direct
  image reference and the nested document's image reference, in this order; a
  direct texture reference wins over a nested one; a tile without any source is
  counted as failed and the pass goes on with the next tile.
\<close>

theorem textureSrc_priority:
  "textureSrc t = spec_resolveImageSource t \<and>
   (truthyStr (textureOf t) \<longrightarrow> textureSrc t = textureOf t) \<and>
   (textureSrc t = None \<longrightarrow>
      drawTile env b st t = st\<lparr>failedCount := failedCount st + 1\<rparr> \<and>
      drawTiles env b st (t # ts) = drawTiles env b (st\<lparr>failedCount := failedCount st + 1\<rparr>) ts)"
  by (simp add: textureSrc_def spec_resolveImageSource_def spec_firstNonEmpty_def drawTile_def)

theorem textureSrc_priority_witness:
  "truthyStr (textureOf nestedTile) \<and> truthyStr (docProp textureOf nestedTile) \<and>
   textureSrc nestedTile = Some ''direct.png'' \<and>
   textureSrc bareTile = None \<and>
   drawTiles goodEnv (computeBounds [bareTile, nestedTile]) initialDrawState [bareTile, nestedTile] =
     \<lparr>drawn = [DrawImage \<lparr>source = Image ''direct.png'' 64 64, sx = 0, sy = 0, sWidth = 64,
                  sHeight = 64, dx = Num 4, dy = Num 0, dWidth = 2, dHeight = 2\<rparr>],
      loadedCount = 1, failedCount = 1\<rparr>"
  using textureSrc_priority[of nestedTile goodEnv "computeBounds [bareTile, nestedTile]" initialDrawState "[]"]
    textureSrc_priority[of bareTile goodEnv "computeBounds [bareTile, nestedTile]" initialDrawState "[nestedTile]"]
  by (simp add: nestedTile_def bareTile_def goodEnv_def computeBounds_def scanBounds_def
      extendBounds_def initialBounds_def ensureExtent_def 
      js_sub_def tileX_def tileY_def tileWidth_def tileHeight_def orZero_def js_or_def
      truthyNum_def docProp_def 
      initialDrawState_def drawTile_def drawCallOf_def textureSrc_def textureOf_def
      truthyStr_def imageWidth_def imageHeight_def)

section \<open>Counting tiles\<close>

text \<open>
  Claim C9: every tile adds one to exactly one of \<open>loadedCount\<close> and
  \<open>failedCount\<close>, so the two counters grow by the number of tiles processed; a tile
  is counted as loaded exactly when its source resolves, its image loads and the
  draw does not throw; and each tile contributes what it would contribute alone,
  whatever happened to the tiles before it.
\<close>

theorem every_tile_counted_once:
  "loadedCount (drawTiles env b st ts) + failedCount (drawTiles env b st ts) =
     loadedCount st + failedCount st + length ts \<and>
   loadedCount (drawTiles env b st ts) =
     loadedCount st + length (filter (\<lambda>t. loadedCount (drawTile env b initialDrawState t) = 1) ts) \<and>
   failedCount (drawTiles env b st ts) =
     failedCount st + length (filter (\<lambda>t. failedCount (drawTile env b initialDrawState t) = 1) ts) \<and>
   drawn (drawTiles env b st ts) =
     drawn st @ concat (map (\<lambda>t. drawn (drawTile env b initialDrawState t)) ts) \<and>
   ((loadedCount (drawTile env b initialDrawState t) = 1 \<and>
       failedCount (drawTile env b initialDrawState t) = 0) \<or>
    (loadedCount (drawTile env b initialDrawState t) = 0 \<and>
       failedCount (drawTile env b initialDrawState t) = 1)) \<and>
   (loadedCount (drawTile env b initialDrawState t) = 1) =
     (\<exists>s i. textureSrc t = Some s \<and> loadImage env s = Some i \<and>
            \<not> drawImageThrows env (drawCallOf b t i))"
proof -
  have "(loadedCount (drawTile env b initialDrawState t) = 1) =
     (\<exists>s i. textureSrc t = Some s \<and> loadImage env s = Some i \<and>
            \<not> drawImageThrows env (drawCallOf b t i))"
    by (auto simp: drawTile_def initialDrawState_def split: option.splits)
  then show ?thesis
    using drawTiles_total[of env b st ts] drawTiles_alone[of env b st ts] drawTile_one[of env b t]
    by blast
qed

section \<open>Falsy coordinates\<close>

text \<open>
  Claim C10: a direct \<open>x\<close>, \<open>y\<close>, \<open>width\<close> or \<open>height\<close> equal to 0 is replaced
  by the nested document's property, and by 0 when that is absent; a tile with
  direct \<open>x = 0\<close> and nested \<open>x = 5\<close> is placed at \<open>x = 5\<close> in both passes; a
  direct \<open>x\<close> of 0 and a missing one give the same position.
\<close>

theorem zero_falls_back_to_document:
  "(prop_x t = Some 0 \<longrightarrow> tileX t = (case docProp prop_x t of None \<Rightarrow> 0 | Some v \<Rightarrow> v)) \<and>
   (prop_y t = Some 0 \<longrightarrow> tileY t = (case docProp prop_y t of None \<Rightarrow> 0 | Some v \<Rightarrow> v)) \<and>
   (prop_width t = Some 0 \<longrightarrow>
      tileWidth t = (case docProp prop_width t of None \<Rightarrow> 0 | Some v \<Rightarrow> v)) \<and>
   (prop_height t = Some 0 \<longrightarrow>
      tileHeight t = (case docProp prop_height t of None \<Rightarrow> 0 | Some v \<Rightarrow> v)) \<and>
   (prop_x t = Some 0 \<and> docProp prop_x t = Some 5 \<longrightarrow>
      tileX t = 5 \<and> dx (drawCallOf b t i) = js_sub (Num 5) (minX b) \<and>
      minX (extendBounds b t) = Math_min (minX b) (Num 5)) \<and>
   tileX (t\<lparr>prop_x := Some 0\<rparr>) = tileX (t\<lparr>prop_x := None\<rparr>)"
  by (auto simp: tileX_def tileY_def tileWidth_def tileHeight_def orZero_def js_or_def
      truthyNum_def drawCallOf_def extendBounds_def docProp_def split: option.splits)

theorem zero_falls_back_to_document_witness:
  "prop_x nestedTile = Some 0 \<and> docProp prop_x nestedTile = Some 5 \<and> tileX nestedTile = 5 \<and>
   prop_y nestedTile = Some 0 \<and> docProp prop_y nestedTile = None \<and> tileY nestedTile = 0 \<and>
   dx (drawCallOf (computeBounds [nestedTile]) nestedTile (Image ''direct.png'' 64 64)) = Num 0 \<and>
   dx (drawCallOf (computeBounds [plainTile 1 0 2 2 ''a.png'', nestedTile]) nestedTile
         (Image ''direct.png'' 64 64)) = Num 4"
  using zero_falls_back_to_document[of nestedTile]
  by (simp add: nestedTile_def plainTile_def computeBounds_def scanBounds_def
      extendBounds_def initialBounds_def ensureExtent_def 
      js_sub_def tileX_def tileY_def tileWidth_def tileHeight_def orZero_def js_or_def
      truthyNum_def docProp_def drawCallOf_def)

end
